theory Spec2Isabelle
  imports Main "HOL-Library.Word" "HOL-Library.DAList"
begin

unbundle bit_operations_syntax

section \<open>Bootstrap job queue state (package queue, state.go)\<close>

text \<open>
  The theory embeds the \<^verbatim>\<open>state\<close> type of package \<^verbatim>\<open>queue\<close> and its methods.
  The methods are translated from the source one by one. Their collaborators (the
  key-value database with its prefix and linked-list views, the LRU cache, the
  identifier type and the 64-bit codec) live in other packages; they are modelled
  below from their description, each under a comment that says so.
\<close>

subsection \<open>Bytes, identifiers, jobs and errors\<close>

type_synonym bytes = "8 word list"

datatype error = ErrNotFound | ErrIO | ErrWrongSize | ErrBadID | ErrParse

text \<open>
  Modelled from the spec: \<^verbatim>\<open>ids.ID\<close> is missing from the sources. It is a fixed-width
  identifier, a Go array of 32 bytes; \<^verbatim>\<open>id[:]\<close> is its byte slice and \<^verbatim>\<open>ids.ToID\<close>
  converts a slice back, failing on bytes that are not an identifier.
\<close>

typedef ID = "{bs :: bytes. length bs = 32}"
  by (rule exI [of _ "replicate 32 0"]) simp

definition ID_slice :: "ID \<Rightarrow> bytes" where
  "ID_slice i = Rep_ID i"

definition ToID :: "bytes \<Rightarrow> error + ID" where
  "ToID bs = (if length bs = 32 then Inr (Abs_ID bs) else Inl ErrBadID)"

text \<open>The array literal \<^verbatim>\<open>ids.ID{b0, b1, ...}\<close>: the bytes given, padded with zeros.\<close>

definition ID_lit :: "bytes \<Rightarrow> ID" where
  "ID_lit bs = Abs_ID (take 32 (bs @ replicate 32 0))"

text \<open>
  A \<^verbatim>\<open>Job\<close> is an interface; the state uses its methods \<^verbatim>\<open>ID()\<close> and \<^verbatim>\<open>Bytes()\<close> only.
\<close>

record Job =
  ID :: ID
  Bytes :: bytes

subsection \<open>The database\<close>

text \<open>
  Modelled from the spec: packages \<^verbatim>\<open>database\<close>, \<^verbatim>\<open>prefixdb\<close> and \<^verbatim>\<open>linkeddb\<close> are
  missing from the sources. The database is a key-value namespace subdivided by
  prefixes: \<^verbatim>\<open>prefixdb.New(p, d)\<close> is the view of \<open>d\<close> under prefix \<open>p\<close>, so a view is
  the list of prefixes that lead to it, and views under different prefixes are
  isolated from each other. A namespace holds its entries with unique keys, in
  insertion order; a put of a new key appends it, a put of a present key overwrites
  its value in place, a delete of an absent key is a no-op that succeeds.
  \<^verbatim>\<open>linkeddb\<close> reads such a namespace as an ordered list with a head.

  Every operation of the store can fail with an I/O error. The failures are
  scheduled in the store itself: each operation consumes one entry of \<open>faults\<close>, and
  fails when the entry is \<open>True\<close>; an empty schedule means no further failure.
\<close>

type_synonym handle = "bytes list"

record Database =
  spaces :: "handle \<Rightarrow> (bytes, bytes) alist"
  faults :: "bool list"

definition prefixdb_New :: "bytes \<Rightarrow> handle \<Rightarrow> handle" where
  "prefixdb_New p h = h @ [p]"

definition tick :: "Database \<Rightarrow> bool \<times> Database" where
  "tick d = (case faults d of [] \<Rightarrow> (False, d) | f # fs \<Rightarrow> (f, d\<lparr>faults := fs\<rparr>))"

definition db_Get :: "handle \<Rightarrow> bytes \<Rightarrow> Database \<Rightarrow> (error + bytes) \<times> Database" where
  "db_Get h k d = (case tick d of (f, d1) \<Rightarrow>
     if f then (Inl ErrIO, d1)
     else (case DAList.lookup (spaces d1 h) k of
             None \<Rightarrow> (Inl ErrNotFound, d1)
           | Some v \<Rightarrow> (Inr v, d1)))"

definition db_Has :: "handle \<Rightarrow> bytes \<Rightarrow> Database \<Rightarrow> (error + bool) \<times> Database" where
  "db_Has h k d = (case tick d of (f, d1) \<Rightarrow>
     if f then (Inl ErrIO, d1)
     else (Inr (DAList.lookup (spaces d1 h) k \<noteq> None), d1))"

definition db_Put :: "handle \<Rightarrow> bytes \<Rightarrow> bytes \<Rightarrow> Database \<Rightarrow> error option \<times> Database" where
  "db_Put h k v d = (case tick d of (f, d1) \<Rightarrow>
     if f then (Some ErrIO, d1)
     else (None, d1\<lparr>spaces := (spaces d1)(h := DAList.update k v (spaces d1 h))\<rparr>))"

definition db_Delete :: "handle \<Rightarrow> bytes \<Rightarrow> Database \<Rightarrow> error option \<times> Database" where
  "db_Delete h k d = (case tick d of (f, d1) \<Rightarrow>
     if f then (Some ErrIO, d1)
     else (None, d1\<lparr>spaces := (spaces d1)(h := DAList.delete k (spaces d1 h))\<rparr>))"

text \<open>The keys of a namespace, in the order its iterator yields them.\<close>

definition db_keys :: "handle \<Rightarrow> Database \<Rightarrow> bytes list" where
  "db_keys h d = map fst (DAList.impl_of (spaces d h))"

definition ldb_HeadKey :: "handle \<Rightarrow> Database \<Rightarrow> (error + bytes) \<times> Database" where
  "ldb_HeadKey h d = (case tick d of (f, d1) \<Rightarrow>
     if f then (Inl ErrIO, d1)
     else (case db_keys h d1 of [] \<Rightarrow> (Inl ErrNotFound, d1) | k # ks \<Rightarrow> (Inr k, d1)))"

definition ldb_IsEmpty :: "handle \<Rightarrow> Database \<Rightarrow> (bool \<times> error option) \<times> Database" where
  "ldb_IsEmpty h d = (case tick d of (f, d1) \<Rightarrow>
     if f then ((False, Some ErrIO), d1)
     else ((db_keys h d1 = [], None), d1))"

text \<open>
  Modelled from the spec: \<^verbatim>\<open>database.PutUInt64\<close> and \<^verbatim>\<open>database.GetUInt64\<close> are
  missing from the sources. They store a single fixed-width counter value: the eight
  bytes of the 64-bit integer, most significant first.
\<close>

definition PackUInt64 :: "64 word \<Rightarrow> bytes" where
  "PackUInt64 w = map (\<lambda>i. ucast (drop_bit (8 * i) w)) [7, 6, 5, 4, 3, 2, 1, 0]"

definition UnpackLong :: "bytes \<Rightarrow> 64 word" where
  "UnpackLong bs = foldl (\<lambda>acc b. push_bit 8 acc OR ucast b) 0 bs"

definition ParseUInt64 :: "bytes \<Rightarrow> error + 64 word" where
  "ParseUInt64 bs = (if length bs = 8 then Inr (UnpackLong bs) else Inl ErrWrongSize)"

definition PutUInt64 :: "handle \<Rightarrow> bytes \<Rightarrow> 64 word \<Rightarrow> Database \<Rightarrow> error option \<times> Database" where
  "PutUInt64 h k w d = db_Put h k (PackUInt64 w) d"

definition GetUInt64 :: "handle \<Rightarrow> bytes \<Rightarrow> Database \<Rightarrow> (error + 64 word) \<times> Database" where
  "GetUInt64 h k d = (case db_Get h k d of
     (Inl err, d1) \<Rightarrow> (Inl err, d1)
   | (Inr b, d1) \<Rightarrow> (ParseUInt64 b, d1))"

subsection \<open>The cache\<close>

text \<open>
  Modelled from the spec: package \<^verbatim>\<open>cache\<close> is missing from the sources. \<^verbatim>\<open>cache.LRU\<close>
  is a bounded cache that keeps the \<open>Size\<close> most recently used entries; \<open>entries\<close>
  lists them, the most recently used first. The metering wrapper of the jobs cache
  only counts hits and misses and is left out.
\<close>

record ('k, 'v) LRU =
  Size :: nat
  entries :: "('k \<times> 'v) list"

definition LRU_Put :: "'k \<Rightarrow> 'v \<Rightarrow> ('k, 'v) LRU \<Rightarrow> ('k, 'v) LRU" where
  "LRU_Put k v c = c\<lparr>entries := take (Size c) ((k, v) # filter (\<lambda>e. fst e \<noteq> k) (entries c))\<rparr>"

definition LRU_Get :: "'k \<Rightarrow> ('k, 'v) LRU \<Rightarrow> 'v option \<times> ('k, 'v) LRU" where
  "LRU_Get k c = (case map_of (entries c) k of
     None \<Rightarrow> (None, c)
   | Some v \<Rightarrow> (Some v, c\<lparr>entries := (k, v) # filter (\<lambda>e. fst e \<noteq> k) (entries c)\<rparr>))"

definition LRU_Flush :: "('k, 'v) LRU \<Rightarrow> ('k, 'v) LRU" where
  "LRU_Flush c = c\<lparr>entries := []\<rparr>"

subsection \<open>Constants and the state\<close>

definition bytes_of_string :: "string \<Rightarrow> bytes" where
  "bytes_of_string cs = map of_char cs"

definition dependentsCacheSize :: nat where
  "dependentsCacheSize = 1024"

definition jobsCacheSize :: nat where
  "jobsCacheSize = 2048"

definition runnableJobIDsKey :: bytes where
  "runnableJobIDsKey = bytes_of_string ''runnable''"

definition jobsKey :: bytes where
  "jobsKey = bytes_of_string ''jobs''"

definition dependenciesKey :: bytes where
  "dependenciesKey = bytes_of_string ''dependencies''"

definition missingJobIDsKey :: bytes where
  "missingJobIDsKey = bytes_of_string ''missing job IDs''"

definition pendingJobsKey :: bytes where
  "pendingJobsKey = bytes_of_string ''pendingJobs''"

text \<open>
  The struct \<^verbatim>\<open>state\<close>. Its database fields are views of one store; the store they
  point into is the field \<open>db\<close>, threaded through every method.
\<close>

record state =
  parser :: "bytes \<Rightarrow> error + Job"
  runnableJobIDs :: handle
  cachingEnabled :: bool
  jobsCache :: "(ID, Job) LRU"
  jobs :: handle
  dependencies :: handle
  dependentsCache :: "(ID, handle) LRU"
  missingJobIDs :: handle
  pendingJobs :: handle
  numPendingJobs :: "64 word"
  db :: Database

subsection \<open>Construction\<close>

text \<open>
  \<^verbatim>\<open>initializePendingJobs\<close> counts the entries its iterator yields. Every call of
  \<^verbatim>\<open>Next\<close> reads the store; a failed read ends the loop and is what
  \<^verbatim>\<open>iterator.Error()\<close> returns, next to the count reached.
\<close>

fun initializePendingJobs_loop ::
  "bytes list \<Rightarrow> 64 word \<Rightarrow> Database \<Rightarrow> (64 word \<times> error option) \<times> Database" where
  "initializePendingJobs_loop [] n d = (case tick d of (f, d1) \<Rightarrow>
     ((n, if f then Some ErrIO else None), d1))"
| "initializePendingJobs_loop (k # ks) n d = (case tick d of (f, d1) \<Rightarrow>
     if f then ((n, Some ErrIO), d1)
     else initializePendingJobs_loop ks (n + 1) d1)"

definition initializePendingJobs ::
  "handle \<Rightarrow> Database \<Rightarrow> (64 word \<times> error option) \<times> Database" where
  "initializePendingJobs h d = initializePendingJobs_loop (db_keys h d) 0 d"

definition getPendingJobs ::
  "handle \<Rightarrow> Database \<Rightarrow> (64 word \<times> error option) \<times> Database" where
  "getPendingJobs h d = (case GetUInt64 h pendingJobsKey d of
     (Inl err, d1) \<Rightarrow>
       if err = ErrNotFound then initializePendingJobs h d1 else ((0, Some err), d1)
   | (Inr n, d1) \<Rightarrow> ((n, None), d1))"

text \<open>
  \<^verbatim>\<open>newState\<close>. The root database is the view under no prefix. The struct literal
  leaves \<^verbatim>\<open>parser\<close> to the caller, so the parser is an argument here; the metrics
  registration of the jobs cache is left out.
\<close>

definition newState :: "(bytes \<Rightarrow> error + Job) \<Rightarrow> Database \<Rightarrow> error + state" where
  "newState p d =
    (let pendingJobs' = prefixdb_New pendingJobsKey [] in
     case getPendingJobs pendingJobs' d of
       ((n, Some err), d1) \<Rightarrow> Inl err
     | ((n, None), d1) \<Rightarrow> Inr
         \<lparr> parser = p,
           runnableJobIDs = prefixdb_New runnableJobIDsKey [],
           cachingEnabled = True,
           jobsCache = \<lparr> Size = jobsCacheSize, entries = [] \<rparr>,
           jobs = prefixdb_New jobsKey [],
           dependencies = prefixdb_New dependenciesKey [],
           dependentsCache = \<lparr> Size = dependentsCacheSize, entries = [] \<rparr>,
           missingJobIDs = prefixdb_New missingJobIDsKey [],
           pendingJobs = pendingJobs',
           numPendingJobs = n,
           db = d1 \<rparr>)"

subsection \<open>Jobs\<close>

definition PutJob :: "state \<Rightarrow> Job \<Rightarrow> error option \<times> state" where
  "PutJob s job =
    (let id' = ID job;
         s1 = (if cachingEnabled s then s\<lparr>jobsCache := LRU_Put id' job (jobsCache s)\<rparr> else s)
     in case db_Put (jobs s1) (ID_slice id') (Bytes job) (db s1) of
          (Some err, d1) \<Rightarrow> (Some err, s1\<lparr>db := d1\<rparr>)
        | (None, d1) \<Rightarrow>
            (let n = numPendingJobs s1 + 1 in
             case PutUInt64 (pendingJobs s1) pendingJobsKey n d1 of
               (r, d2) \<Rightarrow> (r, s1\<lparr>numPendingJobs := n, db := d2\<rparr>)))"

definition HasJob :: "state \<Rightarrow> ID \<Rightarrow> (error + bool) \<times> state" where
  "HasJob s id' =
    (case (if cachingEnabled s then LRU_Get id' (jobsCache s) else (None, jobsCache s)) of
       (Some job, c) \<Rightarrow> (Inr True, s\<lparr>jobsCache := c\<rparr>)
     | (None, c) \<Rightarrow>
         (case db_Has (jobs s) (ID_slice id') (db s) of
            (r, d1) \<Rightarrow> (r, s\<lparr>db := d1\<rparr>)))"

definition GetJob :: "state \<Rightarrow> ID \<Rightarrow> (error + Job) \<times> state" where
  "GetJob s id' =
    (case (if cachingEnabled s then LRU_Get id' (jobsCache s) else (None, jobsCache s)) of
       (Some job, c) \<Rightarrow> (Inr job, s\<lparr>jobsCache := c\<rparr>)
     | (None, c) \<Rightarrow>
         (case db_Get (jobs s) (ID_slice id') (db s) of
            (Inl err, d1) \<Rightarrow> (Inl err, s\<lparr>db := d1\<rparr>)
          | (Inr jobBytes, d1) \<Rightarrow>
              (case parser s jobBytes of
                 Inl err \<Rightarrow> (Inl err, s\<lparr>db := d1\<rparr>)
               | Inr job \<Rightarrow>
                   (Inr job,
                    if cachingEnabled s
                    then s\<lparr>jobsCache := LRU_Put id' job (jobsCache s), db := d1\<rparr>
                    else s\<lparr>db := d1\<rparr>))))"

subsection \<open>The runnable queue\<close>

definition AddRunnableJob :: "state \<Rightarrow> ID \<Rightarrow> error option \<times> state" where
  "AddRunnableJob s jobID =
    (case db_Put (runnableJobIDs s) (ID_slice jobID) [] (db s) of
       (r, d1) \<Rightarrow> (r, s\<lparr>db := d1\<rparr>))"

definition HasRunnableJob :: "state \<Rightarrow> (bool \<times> error option) \<times> state" where
  "HasRunnableJob s =
    (case ldb_IsEmpty (runnableJobIDs s) (db s) of
       ((isEmpty, err), d1) \<Rightarrow> ((\<not> isEmpty, err), s\<lparr>db := d1\<rparr>))"

text \<open>
  \<^verbatim>\<open>RemoveRunnableJob\<close> returns a job and an error; after the job was read, it
  returns the job also next to an error.
\<close>

definition RemoveRunnableJob :: "state \<Rightarrow> (Job option \<times> error option) \<times> state" where
  "RemoveRunnableJob s =
    (case ldb_HeadKey (runnableJobIDs s) (db s) of
       (Inl err, d1) \<Rightarrow> ((None, Some err), s\<lparr>db := d1\<rparr>)
     | (Inr jobIDBytes, d1) \<Rightarrow>
    (case db_Delete (runnableJobIDs s) jobIDBytes d1 of
       (Some err, d2) \<Rightarrow> ((None, Some err), s\<lparr>db := d2\<rparr>)
     | (None, d2) \<Rightarrow>
    (case ToID jobIDBytes of
       Inl err \<Rightarrow> ((None, Some err), s\<lparr>db := d2\<rparr>)
     | Inr jobID \<Rightarrow>
    (case GetJob (s\<lparr>db := d2\<rparr>) jobID of
       (Inl err, s3) \<Rightarrow> ((None, Some err), s3)
     | (Inr job, s3) \<Rightarrow>
    (case db_Delete (jobs s3) jobIDBytes (db s3) of
       (Some err, d4) \<Rightarrow> ((Some job, Some err), s3\<lparr>db := d4\<rparr>)
     | (None, d4) \<Rightarrow>
         if numPendingJobs s3 = 0 then ((Some job, None), s3\<lparr>db := d4\<rparr>)
         else
           (let n = numPendingJobs s3 - 1 in
            case PutUInt64 (pendingJobs s3) pendingJobsKey n d4 of
              (r, d5) \<Rightarrow> ((Some job, r), s3\<lparr>numPendingJobs := n, db := d5\<rparr>)))))))"

subsection \<open>Dependencies\<close>

text \<open>
  \<^verbatim>\<open>getDependentsDB\<close> returns the view of the dependents of a dependency, and
  remembers it in the handle cache while caching is enabled.
\<close>

definition getDependentsDB :: "state \<Rightarrow> ID \<Rightarrow> handle \<times> state" where
  "getDependentsDB s dependency =
    (case (if cachingEnabled s then LRU_Get dependency (dependentsCache s)
           else (None, dependentsCache s)) of
       (Some dependentsDB, c) \<Rightarrow> (dependentsDB, s\<lparr>dependentsCache := c\<rparr>)
     | (None, c) \<Rightarrow>
         (let dependentsDB = prefixdb_New (ID_slice dependency) (dependencies s)
          in (dependentsDB,
              if cachingEnabled s
              then s\<lparr>dependentsCache := LRU_Put dependency dependentsDB (dependentsCache s)\<rparr>
              else s)))"

definition AddDependency :: "state \<Rightarrow> ID \<Rightarrow> ID \<Rightarrow> error option \<times> state" where
  "AddDependency s dependency dependent =
    (case getDependentsDB s dependency of
       (dependentsDB, s1) \<Rightarrow>
         (case db_Put dependentsDB (ID_slice dependent) [] (db s1) of
            (r, d1) \<Rightarrow> (r, s1\<lparr>db := d1\<rparr>)))"

text \<open>
  The loop of \<^verbatim>\<open>RemoveDependencies\<close> over the keys the iterator yields. A nil ID_slice
  and an empty ID_slice are the same in Go, so returning nil is returning \<open>[]\<close>.
\<close>

fun RemoveDependencies_loop ::
  "handle \<Rightarrow> bytes list \<Rightarrow> ID list \<Rightarrow> Database \<Rightarrow> (ID list \<times> error option) \<times> Database" where
  "RemoveDependencies_loop h [] dependents d = (case tick d of (f, d1) \<Rightarrow>
     ((dependents, if f then Some ErrIO else None), d1))"
| "RemoveDependencies_loop h (dependentKey # ks) dependents d = (case tick d of (f, d1) \<Rightarrow>
     if f then ((dependents, Some ErrIO), d1)
     else (case db_Delete h dependentKey d1 of
             (Some err, d2) \<Rightarrow> (([], Some err), d2)
           | (None, d2) \<Rightarrow>
               (case ToID dependentKey of
                  Inl err \<Rightarrow> (([], Some err), d2)
                | Inr dependent \<Rightarrow>
                    RemoveDependencies_loop h ks (dependents @ [dependent]) d2)))"

definition RemoveDependencies :: "state \<Rightarrow> ID \<Rightarrow> (ID list \<times> error option) \<times> state" where
  "RemoveDependencies s dependency =
    (case getDependentsDB s dependency of
       (dependentsDB, s1) \<Rightarrow>
         (case RemoveDependencies_loop dependentsDB (db_keys dependentsDB (db s1)) [] (db s1) of
            (r, d1) \<Rightarrow> (r, s1\<lparr>db := d1\<rparr>)))"

definition DisableCaching :: "state \<Rightarrow> state" where
  "DisableCaching s =
     s\<lparr>dependentsCache := LRU_Flush (dependentsCache s),
       jobsCache := LRU_Flush (jobsCache s),
       cachingEnabled := False\<rparr>"

subsection \<open>Missing job identifiers\<close>

text \<open>
  An \<^verbatim>\<open>ids.Set\<close> is a Go map; ranging over it visits every member once, in an
  order the language does not fix. The argument here is the list of the members in
  the order of the visit.
\<close>

fun AddMissingJobIDs :: "state \<Rightarrow> ID list \<Rightarrow> error option \<times> state" where
  "AddMissingJobIDs s [] = (None, s)"
| "AddMissingJobIDs s (missingID # missingIDs) =
    (case db_Put (missingJobIDs s) (ID_slice missingID) [] (db s) of
       (Some err, d1) \<Rightarrow> (Some err, s\<lparr>db := d1\<rparr>)
     | (None, d1) \<Rightarrow> AddMissingJobIDs (s\<lparr>db := d1\<rparr>) missingIDs)"

fun RemoveMissingJobIDs :: "state \<Rightarrow> ID list \<Rightarrow> error option \<times> state" where
  "RemoveMissingJobIDs s [] = (None, s)"
| "RemoveMissingJobIDs s (missingID # missingIDs) =
    (case db_Delete (missingJobIDs s) (ID_slice missingID) (db s) of
       (Some err, d1) \<Rightarrow> (Some err, s\<lparr>db := d1\<rparr>)
     | (None, d1) \<Rightarrow> RemoveMissingJobIDs (s\<lparr>db := d1\<rparr>) missingIDs)"

text \<open>
  The loop of \<^verbatim>\<open>MissingJobIDs\<close>. It returns a nil error at the end of the
  iteration, whatever \<^verbatim>\<open>iterator.Error()\<close> holds.
\<close>

fun MissingJobIDs_loop ::
  "bytes list \<Rightarrow> ID list \<Rightarrow> Database \<Rightarrow> (ID list \<times> error option) \<times> Database" where
  "MissingJobIDs_loop [] missingIDs d = (case tick d of (f, d1) \<Rightarrow> ((missingIDs, None), d1))"
| "MissingJobIDs_loop (k # ks) missingIDs d = (case tick d of (f, d1) \<Rightarrow>
     if f then ((missingIDs, None), d1)
     else (case ToID k of
             Inl err \<Rightarrow> (([], Some err), d1)
           | Inr missingID \<Rightarrow> MissingJobIDs_loop ks (missingIDs @ [missingID]) d1))"

definition MissingJobIDs :: "state \<Rightarrow> (ID list \<times> error option) \<times> state" where
  "MissingJobIDs s =
    (case MissingJobIDs_loop (db_keys (missingJobIDs s) (db s)) [] (db s) of
       (r, d1) \<Rightarrow> (r, s\<lparr>db := d1\<rparr>))"

subsection \<open>Sequences of calls\<close>

text \<open>
  The operation set of the state, as values, so that a sequence of calls is a list.
  \<open>step\<close> performs one call and tells whether it returned a nil error; \<open>run\<close>
  performs a sequence and collects these results.
\<close>

datatype op =
    OpPutJob Job
  | OpHasJob ID
  | OpGetJob ID
  | OpAddRunnableJob ID
  | OpHasRunnableJob
  | OpRemoveRunnableJob
  | OpAddDependency ID ID
  | OpRemoveDependencies ID
  | OpDisableCaching
  | OpAddMissingJobIDs "ID list"
  | OpRemoveMissingJobIDs "ID list"
  | OpMissingJobIDs

fun step :: "op \<Rightarrow> state \<Rightarrow> bool \<times> state" where
  "step (OpPutJob job) s = (case PutJob s job of (r, s1) \<Rightarrow> (r = None, s1))"
| "step (OpHasJob i) s = (case HasJob s i of (r, s1) \<Rightarrow> (\<not> isl r, s1))"
| "step (OpGetJob i) s = (case GetJob s i of (r, s1) \<Rightarrow> (\<not> isl r, s1))"
| "step (OpAddRunnableJob i) s = (case AddRunnableJob s i of (r, s1) \<Rightarrow> (r = None, s1))"
| "step OpHasRunnableJob s = (case HasRunnableJob s of (r, s1) \<Rightarrow> (snd r = None, s1))"
| "step OpRemoveRunnableJob s = (case RemoveRunnableJob s of (r, s1) \<Rightarrow> (snd r = None, s1))"
| "step (OpAddDependency i j) s = (case AddDependency s i j of (r, s1) \<Rightarrow> (r = None, s1))"
| "step (OpRemoveDependencies i) s =
     (case RemoveDependencies s i of (r, s1) \<Rightarrow> (snd r = None, s1))"
| "step OpDisableCaching s = (True, DisableCaching s)"
| "step (OpAddMissingJobIDs is) s = (case AddMissingJobIDs s is of (r, s1) \<Rightarrow> (r = None, s1))"
| "step (OpRemoveMissingJobIDs is) s =
     (case RemoveMissingJobIDs s is of (r, s1) \<Rightarrow> (r = None, s1))"
| "step OpMissingJobIDs s = (case MissingJobIDs s of (r, s1) \<Rightarrow> (snd r = None, s1))"

fun run :: "op list \<Rightarrow> state \<Rightarrow> bool list \<times> state" where
  "run [] s = ([], s)"
| "run (x # xs) s =
     (case step x s of (ok, s1) \<Rightarrow> (case run xs s1 of (oks, s2) \<Rightarrow> (ok # oks, s2)))"

text \<open>The calls that change the pending counter, and how many of each a sequence holds.\<close>

fun isPut :: "op \<Rightarrow> bool" where
  "isPut (OpPutJob job) = True"
| "isPut x = False"

fun isRemove :: "op \<Rightarrow> bool" where
  "isRemove OpRemoveRunnableJob = True"
| "isRemove x = False"

definition numPuts :: "op list \<Rightarrow> nat" where
  "numPuts xs = length (filter isPut xs)"

definition numRemoves :: "op list \<Rightarrow> nat" where
  "numRemoves xs = length (filter isRemove xs)"

text \<open>
  \<open>covered c xs\<close>: started with \<open>c\<close> more puts than removes, the sequence never asks
  for a remove that no earlier put accounts for.
\<close>

fun covered :: "nat \<Rightarrow> op list \<Rightarrow> bool" where
  "covered c [] = True"
| "covered c (x # xs) =
     (if isPut x then covered (Suc c) xs
      else if isRemove x then 0 < c \<and> covered (c - 1) xs
      else covered c xs)"

text \<open>
  \<open>allSucceed xs oks\<close>: every call of the sequence that changes the counter returned a
  nil error.
\<close>

fun allSucceed :: "op list \<Rightarrow> bool list \<Rightarrow> bool" where
  "allSucceed (x # xs) (ok # oks) = ((isPut x \<or> isRemove x \<longrightarrow> ok) \<and> allSucceed xs oks)"
| "allSucceed xs oks = True"

subsection \<open>Cache and store in agreement\<close>





subsection \<open>A small scenario\<close>

text \<open>
  An empty store that never fails, a job \<open>job1\<close> with identifier \<open>H1\<close>, and a parser
  that knows this job.
\<close>

definition emptyDB :: Database where
  "emptyDB = \<lparr> spaces = (\<lambda>h. DAList.empty), faults = [] \<rparr>"

definition H1 :: ID where
  "H1 = ID_lit [1]"

definition H2 :: ID where
  "H2 = ID_lit [2]"

definition job1 :: Job where
  "job1 = \<lparr> ID = H1, Bytes = [7, 1] \<rparr>"

definition parser1 :: "bytes \<Rightarrow> error + Job" where
  "parser1 bs = (if bs = [7, 1] then Inr job1 else Inl ErrParse)"

text \<open>A job whose bytes the parser rejects.\<close>

definition job2 :: Job where
  "job2 = \<lparr> ID = H2, Bytes = [9] \<rparr>"

text \<open>The state that \<^verbatim>\<open>newState\<close> builds on the empty store.\<close>

definition state0 :: state where
  "state0 =
     \<lparr> parser = parser1,
       runnableJobIDs = [runnableJobIDsKey],
       cachingEnabled = True,
       jobsCache = \<lparr> Size = 2048, entries = [] \<rparr>,
       jobs = [jobsKey],
       dependencies = [dependenciesKey],
       dependentsCache = \<lparr> Size = 1024, entries = [] \<rparr>,
       missingJobIDs = [missingJobIDsKey],
       pendingJobs = [pendingJobsKey],
       numPendingJobs = 0,
       db = emptyDB \<rparr>"

text \<open>
  A store written before the counter had a checkpoint: it holds \<open>job1\<close>, queued as
  runnable, and nothing under the prefix of the pending counter.
\<close>

definition legacyDB :: Database where
  "legacyDB =
     \<lparr> spaces = (\<lambda>h. DAList.empty)
         ([jobsKey] := DAList.update (ID_slice H1) [7, 1] DAList.empty,
          [runnableJobIDsKey] := DAList.update (ID_slice H1) [] DAList.empty),
       faults = [] \<rparr>"

text \<open>
  A state in which the bucket of \<open>H1\<close> holds \<open>H2\<close> and \<open>H1\<close>, on a store that fails
  its fourth operation.
\<close>

definition failingState :: state where
  "failingState =
     (snd (run [OpAddDependency H1 H2, OpAddDependency H1 H1] state0))
       \<lparr>db := db (snd (run [OpAddDependency H1 H2, OpAddDependency H1 H1] state0))
               \<lparr>faults := [False, False, False, True]\<rparr>\<rparr>"

section \<open>Basic facts\<close>

subsection \<open>Identifiers and the counter codec\<close>

lemma length_ID_slice: "length (ID_slice x) = 32"
  using Rep_ID [of x] by (simp add: ID_slice_def)

lemma ToID_ID_slice: "ToID (ID_slice x) = Inr x"
  by (simp add: ToID_def length_ID_slice) (simp add: ID_slice_def Rep_ID_inverse)

lemma ID_slice_inject: "ID_slice x = ID_slice y \<longleftrightarrow> x = y"
  by (simp add: ID_slice_def Rep_ID_inject)

lemma ID_slice_ID_lit: "ID_slice (ID_lit bs) = take 32 (bs @ replicate 32 0)"
  by (simp add: ID_slice_def ID_lit_def Abs_ID_inverse)

lemma ToID_Inr: "ToID bs = Inr x \<Longrightarrow> ID_slice x = bs"
  by (auto simp: ToID_def ID_slice_def Abs_ID_inverse split: if_splits)

lemma H1_neq_H2: "H1 \<noteq> H2"
  by (simp add: H1_def H2_def ID_lit_def Abs_ID_inject)

lemma unpack_step:
  "push_bit 8 (drop_bit (n + 8) w) OR ucast (ucast (drop_bit n w) :: 8 word) = drop_bit n (w :: 64 word)"
  by (rule bit_word_eqI) (auto simp: bit_simps)

lemma unpack_first: "ucast (ucast (drop_bit 56 w) :: 8 word) = drop_bit 56 (w :: 64 word)"
  by (rule bit_word_eqI) (auto simp: bit_simps dest: bit_imp_le_length)

lemma UnpackLong_PackUInt64: "UnpackLong (PackUInt64 w) = w"
  using unpack_step [of 48 w] unpack_step [of 40 w] unpack_step [of 32 w] unpack_step [of 24 w]
    unpack_step [of 16 w] unpack_step [of 8 w] unpack_step [of 0 w]
  by (simp add: UnpackLong_def PackUInt64_def unpack_first)

lemma ParseUInt64_PackUInt64: "ParseUInt64 (PackUInt64 w) = Inr w"
  by (simp add: ParseUInt64_def UnpackLong_PackUInt64) (simp add: PackUInt64_def)

subsection \<open>The store and the scenario\<close>

lemma tick_no_faults: "faults d = [] \<Longrightarrow> tick d = (False, d)"
  by (simp add: tick_def)

lemmas db_defs = db_Get_def db_Has_def db_Put_def db_Delete_def ldb_HeadKey_def ldb_IsEmpty_def
  PutUInt64_def GetUInt64_def db_keys_def tick_def

lemmas op_defs = PutJob_def HasJob_def GetJob_def AddRunnableJob_def HasRunnableJob_def
  RemoveRunnableJob_def AddDependency_def RemoveDependencies_def DisableCaching_def
  MissingJobIDs_def getDependentsDB_def LRU_Put_def LRU_Get_def LRU_Flush_def

lemmas alist_eval = DAList.update.rep_eq DAList.empty.rep_eq DAList.delete.rep_eq

lemmas scen_defs = state0_def emptyDB_def legacyDB_def failingState_def job1_def job2_def parser1_def

lemma keys_distinct:
  "distinct [runnableJobIDsKey, jobsKey, dependenciesKey, missingJobIDsKey, pendingJobsKey]"
  by (simp add: runnableJobIDsKey_def jobsKey_def dependenciesKey_def missingJobIDsKey_def
      pendingJobsKey_def bytes_of_string_def)

lemma keys_neq:
  "runnableJobIDsKey \<noteq> jobsKey" "runnableJobIDsKey \<noteq> dependenciesKey"
  "runnableJobIDsKey \<noteq> missingJobIDsKey" "runnableJobIDsKey \<noteq> pendingJobsKey"
  "jobsKey \<noteq> runnableJobIDsKey" "jobsKey \<noteq> dependenciesKey"
  "jobsKey \<noteq> missingJobIDsKey" "jobsKey \<noteq> pendingJobsKey"
  "dependenciesKey \<noteq> runnableJobIDsKey" "dependenciesKey \<noteq> jobsKey"
  "dependenciesKey \<noteq> missingJobIDsKey" "dependenciesKey \<noteq> pendingJobsKey"
  "missingJobIDsKey \<noteq> runnableJobIDsKey" "missingJobIDsKey \<noteq> jobsKey"
  "missingJobIDsKey \<noteq> dependenciesKey" "missingJobIDsKey \<noteq> pendingJobsKey"
  "pendingJobsKey \<noteq> runnableJobIDsKey" "pendingJobsKey \<noteq> jobsKey"
  "pendingJobsKey \<noteq> dependenciesKey" "pendingJobsKey \<noteq> missingJobIDsKey"
  using keys_distinct by auto

lemmas new_defs = newState_def getPendingJobs_def initializePendingJobs_def prefixdb_New_def
  jobsCacheSize_def dependentsCacheSize_def Let_def

lemma newState_emptyDB: "newState parser1 emptyDB = Inr state0"
  by (simp add: newState_def getPendingJobs_def initializePendingJobs_def db_defs emptyDB_def
      state0_def prefixdb_New_def jobsCacheSize_def dependentsCacheSize_def DAList.empty.rep_eq)

lemma newState_legacyDB: "newState parser1 legacyDB = Inr (state0\<lparr>db := legacyDB\<rparr>)"
  by (simp add: new_defs db_defs scen_defs alist_eval keys_neq)


lemma length_pendingJobsKey: "length pendingJobsKey = 11"
  by (simp add: pendingJobsKey_def bytes_of_string_def)

lemma ID_slice_neq_pendingJobsKey: "ID_slice x \<noteq> pendingJobsKey" "pendingJobsKey \<noteq> ID_slice x"
  using length_ID_slice [of x] length_pendingJobsKey by auto

lemma ToID_length: "ToID k = Inr i \<Longrightarrow> length k = 32"
  by (simp add: ToID_def split: if_splits)

lemma db_Delete_other:
  "db_Delete h k d = (r, d') \<Longrightarrow> k \<noteq> k' \<Longrightarrow>
   DAList.lookup (spaces d' h') k' = DAList.lookup (spaces d h') k'"
  by (auto simp: db_Delete_def tick_def split: list.splits if_splits)

lemma ldb_HeadKey_spaces: "ldb_HeadKey h d = (r, d') \<Longrightarrow> spaces d' = spaces d"
  by (auto simp: ldb_HeadKey_def tick_def split: list.splits if_splits)

lemma GetUInt64_PackUInt64:
  "DAList.lookup (spaces d h) k = Some (PackUInt64 n) \<Longrightarrow> \<not> fst (tick d) \<Longrightarrow>
   fst (GetUInt64 h k d) = Inr n"
  by (auto simp: GetUInt64_def db_Get_def tick_def ParseUInt64_PackUInt64 split: list.splits)

lemmas eval_defs = op_defs db_defs scen_defs alist_eval keys_neq ToID_ID_slice
  ID_slice_neq_pendingJobsKey ParseUInt64_PackUInt64 Let_def prefixdb_New_def

subsection \<open>What a call leaves alone, and what a successful dequeue did\<close>

lemma GetJob_frame:
  "numPendingJobs (snd (GetJob s i)) = numPendingJobs s"
  "pendingJobs (snd (GetJob s i)) = pendingJobs s"
  "jobs (snd (GetJob s i)) = jobs s"
  "runnableJobIDs (snd (GetJob s i)) = runnableJobIDs s"
  "cachingEnabled (snd (GetJob s i)) = cachingEnabled s"
  "parser (snd (GetJob s i)) = parser s"
  "spaces (db (snd (GetJob s i))) = spaces (db s)"
  by (auto simp: GetJob_def LRU_Get_def db_Get_def tick_def
      split: list.splits option.splits sum.splits prod.splits)

lemma GetJob_frameD:
  "GetJob s i = (r, s') \<Longrightarrow>
   numPendingJobs s' = numPendingJobs s \<and> pendingJobs s' = pendingJobs s \<and> jobs s' = jobs s
   \<and> runnableJobIDs s' = runnableJobIDs s \<and> cachingEnabled s' = cachingEnabled s
   \<and> parser s' = parser s \<and> spaces (db s') = spaces (db s)"
  using GetJob_frame [of s i] by simp

lemma RemoveRunnableJob_success:
  assumes "RemoveRunnableJob s = ((jo, None), s')"
  shows "\<exists>k d1 d2 i job s3 d4.
     ldb_HeadKey (runnableJobIDs s) (db s) = (Inr k, d1)
   \<and> db_Delete (runnableJobIDs s) k d1 = (None, d2)
   \<and> ToID k = Inr i
   \<and> GetJob (s\<lparr>db := d2\<rparr>) i = (Inr job, s3)
   \<and> db_Delete (jobs s3) k (db s3) = (None, d4)
   \<and> jo = Some job
   \<and> (if numPendingJobs s3 = 0 then s' = s3\<lparr>db := d4\<rparr>
       else \<exists>d5. PutUInt64 (pendingJobs s3) pendingJobsKey (numPendingJobs s3 - 1) d4 = (None, d5)
              \<and> s' = s3\<lparr>numPendingJobs := numPendingJobs s3 - 1, db := d5\<rparr>)"
  using assms
  by (simp add: RemoveRunnableJob_def Let_def split: prod.splits sum.splits option.splits if_splits)

lemma RemoveRunnableJob_cases:
  assumes "snd (fst (RemoveRunnableJob s)) = None"
  obtains k d1 d2 i job s3 d4 where
    "ldb_HeadKey (runnableJobIDs s) (db s) = (Inr k, d1)"
    "db_Delete (runnableJobIDs s) k d1 = (None, d2)"
    "ToID k = Inr i"
    "GetJob (s\<lparr>db := d2\<rparr>) i = (Inr job, s3)"
    "db_Delete (jobs s3) k (db s3) = (None, d4)"
    "fst (fst (RemoveRunnableJob s)) = Some job"
    "if numPendingJobs s3 = 0 then snd (RemoveRunnableJob s) = s3\<lparr>db := d4\<rparr>
       else \<exists>d5. PutUInt64 (pendingJobs s3) pendingJobsKey (numPendingJobs s3 - 1) d4 = (None, d5)
              \<and> snd (RemoveRunnableJob s) = s3\<lparr>numPendingJobs := numPendingJobs s3 - 1, db := d5\<rparr>"
proof -
  obtain jo s' where r: "RemoveRunnableJob s = ((jo, None), s')"
    using assms by (cases "RemoveRunnableJob s") auto
  from RemoveRunnableJob_success [OF r] r that show thesis
    by (metis fst_conv snd_conv)
qed

section \<open>Jobs\<close>

text \<open>
  Claim C7. \<^verbatim>\<open>GetJob\<close> looks in the cache first while caching is enabled: a cached
  job is returned and the store is not touched. Otherwise it reads the store: an
  identifier that is absent there gives \<open>ErrNotFound\<close>, bytes that the parser rejects
  give the parser's error, and in both cases the cache stays as it was; bytes that
  decode give the decoded job, which is put into the cache when caching is enabled.
\<close>

theorem GetJob_cache_first:
  "(cachingEnabled s \<and> map_of (entries (jobsCache s)) i = Some job \<longrightarrow>
      fst (GetJob s i) = Inr job \<and> db (snd (GetJob s i)) = db s)
   \<and> ((\<not> cachingEnabled s \<or> map_of (entries (jobsCache s)) i = None) \<and> \<not> fst (tick (db s)) \<longrightarrow>
       (case DAList.lookup (spaces (db s) (jobs s)) (ID_slice i) of
          None \<Rightarrow> fst (GetJob s i) = Inl ErrNotFound
                 \<and> jobsCache (snd (GetJob s i)) = jobsCache s
        | Some b \<Rightarrow>
           (case parser s b of
              Inl err \<Rightarrow> fst (GetJob s i) = Inl err
                 \<and> jobsCache (snd (GetJob s i)) = jobsCache s
            | Inr job' \<Rightarrow> fst (GetJob s i) = Inr job'
                 \<and> jobsCache (snd (GetJob s i)) =
                     (if cachingEnabled s then LRU_Put i job' (jobsCache s) else jobsCache s))))"
  by (auto simp: GetJob_def LRU_Get_def db_Get_def tick_def
      split: list.splits option.splits sum.splits prod.splits if_splits)

theorem GetJob_cache_first_witness:
  "cachingEnabled (snd (PutJob state0 job1))
   \<and> map_of (entries (jobsCache (snd (PutJob state0 job1)))) H1 = Some job1
   \<and> fst (GetJob (snd (PutJob state0 job1)) H1) = Inr job1
   \<and> map_of (entries (jobsCache state0)) H1 = None \<and> \<not> fst (tick (db state0))
   \<and> fst (GetJob state0 H1) = Inl ErrNotFound
   \<and> \<not> cachingEnabled (DisableCaching (snd (PutJob state0 job1)))
   \<and> fst (GetJob (DisableCaching (snd (PutJob state0 job1))) H1) = Inr job1
   \<and> fst (GetJob (DisableCaching (snd (PutJob state0 job2))) H2) = Inl ErrParse
   \<and> entries (jobsCache (snd (GetJob (DisableCaching (snd (PutJob state0 job2))) H2))) = []"
  using GetJob_cache_first [of "snd (PutJob state0 job1)" H1 job1]
    GetJob_cache_first [of state0 H1]
    GetJob_cache_first [of "DisableCaching (snd (PutJob state0 job1))" H1]
    GetJob_cache_first [of "DisableCaching (snd (PutJob state0 job2))" H2]
    keys_distinct H1_neq_H2
  by (simp add: op_defs db_defs scen_defs alist_eval)

text \<open>
  Claim C10. With caching enabled \<^verbatim>\<open>PutJob\<close> puts the job into the cache before it
  writes the store. If that write fails, \<^verbatim>\<open>PutJob\<close> returns the error, the pending
  counter and the store are as before, and yet \<^verbatim>\<open>HasJob\<close> answers true and \<^verbatim>\<open>GetJob\<close>
  returns the job.
\<close>

theorem PutJob_cache_before_store:
  assumes "cachingEnabled s" and "0 < Size (jobsCache s)"
    and "fst (db_Put (jobs s) (ID_slice (ID job)) (Bytes job) (db s)) = Some err"
  shows "fst (PutJob s job) = Some err
     \<and> numPendingJobs (snd (PutJob s job)) = numPendingJobs s
     \<and> spaces (db (snd (PutJob s job))) = spaces (db s)
     \<and> fst (HasJob (snd (PutJob s job)) (ID job)) = Inr True
     \<and> fst (GetJob (snd (PutJob s job)) (ID job)) = Inr job"
  using assms
  by (cases "Size (jobsCache s)")
     (auto simp: PutJob_def HasJob_def GetJob_def LRU_Get_def LRU_Put_def db_Put_def tick_def Let_def
      split: list.splits option.splits sum.splits prod.splits if_splits)

theorem PutJob_cache_before_store_witness:
  "cachingEnabled (state0\<lparr>db := emptyDB\<lparr>faults := [True]\<rparr>\<rparr>)
   \<and> 0 < Size (jobsCache (state0\<lparr>db := emptyDB\<lparr>faults := [True]\<rparr>\<rparr>))
   \<and> fst (db_Put [jobsKey] (ID_slice H1) [7, 1] (emptyDB\<lparr>faults := [True]\<rparr>)) = Some ErrIO
   \<and> fst (PutJob (state0\<lparr>db := emptyDB\<lparr>faults := [True]\<rparr>\<rparr>) job1) = Some ErrIO
   \<and> fst (HasJob (snd (PutJob (state0\<lparr>db := emptyDB\<lparr>faults := [True]\<rparr>\<rparr>) job1)) H1) = Inr True
   \<and> fst (GetJob (snd (PutJob (state0\<lparr>db := emptyDB\<lparr>faults := [True]\<rparr>\<rparr>) job1)) H1) = Inr job1
   \<and> DAList.lookup
        (spaces (db (snd (PutJob (state0\<lparr>db := emptyDB\<lparr>faults := [True]\<rparr>\<rparr>) job1))) [jobsKey])
        (ID_slice H1) = None"
  using PutJob_cache_before_store [of "state0\<lparr>db := emptyDB\<lparr>faults := [True]\<rparr>\<rparr>" job1 ErrIO]
  by (simp add: db_defs scen_defs)

text \<open>
  Claim C1, at the input where the code departs from it. A state is built on the
  empty store, so caching is enabled; \<open>job1\<close> is put and queued as runnable, and
  \<^verbatim>\<open>RemoveRunnableJob\<close> dequeues it without error. The job is gone from the
  store, but \<^verbatim>\<open>RemoveRunnableJob\<close> left it in the cache, and \<^verbatim>\<open>HasJob\<close> still
  answers true.
\<close>

theorem HasJob_true_after_dequeue:
  "newState parser1 emptyDB = Inr state0
   \<and> fst (run [OpPutJob job1, OpAddRunnableJob H1] state0) = [True, True]
   \<and> cachingEnabled (snd (run [OpPutJob job1, OpAddRunnableJob H1] state0))
   \<and> fst (RemoveRunnableJob (snd (run [OpPutJob job1, OpAddRunnableJob H1] state0))) = (Some job1, None)
   \<and> fst (HasJob (snd (RemoveRunnableJob (snd (run [OpPutJob job1, OpAddRunnableJob H1] state0)))) (ID job1))
       = Inr True
   \<and> DAList.lookup (spaces (db (snd (RemoveRunnableJob (snd (run [OpPutJob job1, OpAddRunnableJob H1] state0)))))
        [jobsKey]) (ID_slice (ID job1)) = None"
  by (simp add: newState_emptyDB) (simp add: eval_defs)

section \<open>The pending counter\<close>

subsection \<open>Construction\<close>

lemma initializePendingJobs_loop_no_faults:
  "faults d = [] \<Longrightarrow> initializePendingJobs_loop ks n d = ((n + of_nat (length ks), None), d)"
  by (induction ks arbitrary: n) (simp_all add: tick_def)

lemma spaces_initializePendingJobs_loop:
  "spaces (snd (initializePendingJobs_loop ks n d)) = spaces d"
  by (induction ks arbitrary: n d) (auto simp: tick_def split: list.splits)

lemma spaces_getPendingJobs: "spaces (snd (getPendingJobs h d)) = spaces d"
  by (auto simp: getPendingJobs_def GetUInt64_def db_Get_def initializePendingJobs_def db_keys_def
      spaces_initializePendingJobs_loop tick_def split: list.splits option.splits sum.splits prod.splits)

lemma getPendingJobs_checkpoint_present:
  "faults d = False # fs \<Longrightarrow> DAList.lookup (spaces d h) pendingJobsKey = Some b \<Longrightarrow>
   length b = 8 \<Longrightarrow> getPendingJobs h d = ((UnpackLong b, None), d\<lparr>faults := fs\<rparr>)"
  by (simp add: getPendingJobs_def GetUInt64_def db_Get_def tick_def ParseUInt64_def)

lemma getPendingJobs_scan:
  "faults d = [] \<Longrightarrow> DAList.lookup (spaces d h) pendingJobsKey = None \<Longrightarrow>
   getPendingJobs h d = ((of_nat (length (db_keys h d)), None), d)"
  by (simp add: getPendingJobs_def GetUInt64_def db_Get_def tick_def initializePendingJobs_def
      initializePendingJobs_loop_no_faults)

lemma newState_store_unchanged: "newState p d = Inr s \<Longrightarrow> spaces (db s) = spaces d"
  using spaces_getPendingJobs [of "prefixdb_New pendingJobsKey []" d]
  by (auto simp: newState_def Let_def split: prod.splits option.splits)

text \<open>
  Claim C2, at the input where the code departs from it. The store holds \<open>job1\<close>,
  queued as runnable, and no checkpoint, and it never fails. \<^verbatim>\<open>newState\<close> succeeds;
  the Job Store has one entry, and \<^verbatim>\<open>getPendingJobs\<close> on the view of the jobs
  counts 1. But \<^verbatim>\<open>newState\<close> hands \<^verbatim>\<open>getPendingJobs\<close> the view of the pending
  counter, where the checkpoint was just found missing: the recovered counter is 0.
  The store is returned as it was, so no checkpoint is written.
\<close>

theorem newState_scans_checkpoint_view:
  "\<not> isl (newState parser1 legacyDB)
   \<and> db_keys (jobs (projr (newState parser1 legacyDB))) (db (projr (newState parser1 legacyDB))) = [ID_slice H1]
   \<and> fst (getPendingJobs (jobs (projr (newState parser1 legacyDB))) legacyDB) = (1, None)
   \<and> numPendingJobs (projr (newState parser1 legacyDB)) = 0
   \<and> db (projr (newState parser1 legacyDB)) = legacyDB
   \<and> DAList.lookup (spaces (db (projr (newState parser1 legacyDB))) (pendingJobs (projr (newState parser1 legacyDB))))
        pendingJobsKey = None"
  using getPendingJobs_scan [of legacyDB "[jobsKey]"]
  by (simp add: newState_legacyDB) (simp add: eval_defs)

subsection \<open>Checkpoints\<close>

lemma PutJob_checkpoint:
  "fst (PutJob s job) = None \<Longrightarrow>
   DAList.lookup (spaces (db (snd (PutJob s job))) (pendingJobs s)) pendingJobsKey
     = Some (PackUInt64 (numPendingJobs (snd (PutJob s job))))"
  by (auto simp: PutJob_def Let_def PutUInt64_def db_Put_def tick_def
      split: list.splits option.splits prod.splits if_splits)

lemma RemoveRunnableJob_checkpoint:
  assumes "snd (fst (RemoveRunnableJob s)) = None" and "numPendingJobs s \<noteq> 0"
  shows "DAList.lookup (spaces (db (snd (RemoveRunnableJob s))) (pendingJobs s)) pendingJobsKey
     = Some (PackUInt64 (numPendingJobs (snd (RemoveRunnableJob s))))"
proof -
  from assms(1) obtain k d1 d2 i job s3 d4 where
    g: "GetJob (s\<lparr>db := d2\<rparr>) i = (Inr job, s3)"
    and c: "if numPendingJobs s3 = 0 then snd (RemoveRunnableJob s) = s3\<lparr>db := d4\<rparr>
       else \<exists>d5. PutUInt64 (pendingJobs s3) pendingJobsKey (numPendingJobs s3 - 1) d4 = (None, d5)
              \<and> snd (RemoveRunnableJob s) = s3\<lparr>numPendingJobs := numPendingJobs s3 - 1, db := d5\<rparr>"
    by (rule RemoveRunnableJob_cases)
  from GetJob_frameD [OF g] have f: "numPendingJobs s3 = numPendingJobs s" "pendingJobs s3 = pendingJobs s"
    by simp_all
  with c assms(2) obtain d5 where
    p: "PutUInt64 (pendingJobs s) pendingJobsKey (numPendingJobs s - 1) d4 = (None, d5)"
    and s': "snd (RemoveRunnableJob s) = s3\<lparr>numPendingJobs := numPendingJobs s - 1, db := d5\<rparr>"
    by auto
  from p have "DAList.lookup (spaces d5 (pendingJobs s)) pendingJobsKey = Some (PackUInt64 (numPendingJobs s - 1))"
    by (auto simp: PutUInt64_def db_Put_def tick_def split: list.splits if_splits)
  with s' show ?thesis by simp
qed

lemma RemoveRunnableJob_clamped:
  assumes "snd (fst (RemoveRunnableJob s)) = None" and "numPendingJobs s = 0"
  shows "numPendingJobs (snd (RemoveRunnableJob s)) = 0
     \<and> DAList.lookup (spaces (db (snd (RemoveRunnableJob s))) (pendingJobs s)) pendingJobsKey
       = DAList.lookup (spaces (db s) (pendingJobs s)) pendingJobsKey"
proof -
  from assms(1) obtain k d1 d2 i job s3 d4 where
    h: "ldb_HeadKey (runnableJobIDs s) (db s) = (Inr k, d1)"
    and d: "db_Delete (runnableJobIDs s) k d1 = (None, d2)"
    and t: "ToID k = Inr i"
    and g: "GetJob (s\<lparr>db := d2\<rparr>) i = (Inr job, s3)"
    and e: "db_Delete (jobs s3) k (db s3) = (None, d4)"
    and c: "if numPendingJobs s3 = 0 then snd (RemoveRunnableJob s) = s3\<lparr>db := d4\<rparr>
       else \<exists>d5. PutUInt64 (pendingJobs s3) pendingJobsKey (numPendingJobs s3 - 1) d4 = (None, d5)
              \<and> snd (RemoveRunnableJob s) = s3\<lparr>numPendingJobs := numPendingJobs s3 - 1, db := d5\<rparr>"
    by (rule RemoveRunnableJob_cases)
  from GetJob_frameD [OF g] have f: "numPendingJobs s3 = numPendingJobs s" "spaces (db s3) = spaces d2"
    by simp_all
  from t have k: "k \<noteq> pendingJobsKey"
    using ToID_length [OF t] by (auto simp: length_pendingJobsKey)
  from c f assms(2) have s': "snd (RemoveRunnableJob s) = s3\<lparr>db := d4\<rparr>" by simp
  have "DAList.lookup (spaces d4 (pendingJobs s)) pendingJobsKey
      = DAList.lookup (spaces (db s) (pendingJobs s)) pendingJobsKey"
    using db_Delete_other [OF e k] db_Delete_other [OF d k] ldb_HeadKey_spaces [OF h] f(2)
    by simp
  with s' f assms(2) show ?thesis by simp
qed

text \<open>
  Claim C4 fails where the decrement is clamped. On the store that holds a job and
  no checkpoint the counter starts at 0; \<^verbatim>\<open>RemoveRunnableJob\<close> dequeues the job
  without error and writes no checkpoint, so reading the checkpoint still finds
  nothing, while the counter in memory is 0.
\<close>

theorem clamped_dequeue_counterexample:
  "fst (RemoveRunnableJob (projr (newState parser1 legacyDB))) = (Some job1, None)
   \<and> numPendingJobs (snd (RemoveRunnableJob (projr (newState parser1 legacyDB)))) = 0
   \<and> fst (GetUInt64 (pendingJobs (snd (RemoveRunnableJob (projr (newState parser1 legacyDB))))) pendingJobsKey
        (db (snd (RemoveRunnableJob (projr (newState parser1 legacyDB)))))) = Inl ErrNotFound"
  
  by (simp add: newState_legacyDB) (simp add: eval_defs)

text \<open>
  Claim C4, amended. After a \<^verbatim>\<open>PutJob\<close> that returns no error, and after a
  \<^verbatim>\<open>RemoveRunnableJob\<close> that returns no error and found the counter above zero, the
  checkpoint read back from the store is the counter in memory. A
  \<^verbatim>\<open>RemoveRunnableJob\<close> that returns no error and found the counter at zero leaves
  the counter at zero and the stored checkpoint as it was.
\<close>

theorem checkpoint_after_mutation:
  "(fst (PutJob s job) = None \<longrightarrow>
      fst (GetUInt64 (pendingJobs s) pendingJobsKey (db (snd (PutJob s job))\<lparr>faults := []\<rparr>))
        = Inr (numPendingJobs (snd (PutJob s job))))
   \<and> (snd (fst (RemoveRunnableJob s)) = None \<and> numPendingJobs s \<noteq> 0 \<longrightarrow>
      fst (GetUInt64 (pendingJobs s) pendingJobsKey (db (snd (RemoveRunnableJob s))\<lparr>faults := []\<rparr>))
        = Inr (numPendingJobs (snd (RemoveRunnableJob s))))
   \<and> (snd (fst (RemoveRunnableJob s)) = None \<and> numPendingJobs s = 0 \<longrightarrow>
      numPendingJobs (snd (RemoveRunnableJob s)) = 0
      \<and> DAList.lookup (spaces (db (snd (RemoveRunnableJob s))) (pendingJobs s)) pendingJobsKey
        = DAList.lookup (spaces (db s) (pendingJobs s)) pendingJobsKey)"
  using PutJob_checkpoint [of s job] RemoveRunnableJob_checkpoint [of s] RemoveRunnableJob_clamped [of s]
  by (auto intro!: GetUInt64_PackUInt64 simp: tick_def)

theorem checkpoint_after_mutation_witness:
  "fst (PutJob state0 job1) = None
   \<and> fst (GetUInt64 [pendingJobsKey] pendingJobsKey (db (snd (PutJob state0 job1)))) = Inr 1
   \<and> fst (RemoveRunnableJob (snd (run [OpPutJob job1, OpAddRunnableJob H1] state0))) = (Some job1, None)
   \<and> numPendingJobs (snd (run [OpPutJob job1, OpAddRunnableJob H1] state0)) = 1
   \<and> fst (GetUInt64 [pendingJobsKey] pendingJobsKey
        (db (snd (RemoveRunnableJob (snd (run [OpPutJob job1, OpAddRunnableJob H1] state0)))))) = Inr 0
   \<and> fst (RemoveRunnableJob (state0\<lparr>db := legacyDB\<rparr>)) = (Some job1, None)
   \<and> DAList.lookup (spaces (db (snd (RemoveRunnableJob (state0\<lparr>db := legacyDB\<rparr>)))) [pendingJobsKey])
        pendingJobsKey = None"
  using checkpoint_after_mutation [of state0 job1]
    checkpoint_after_mutation [of "snd (run [OpPutJob job1, OpAddRunnableJob H1] state0)"]
    checkpoint_after_mutation [of "state0\<lparr>db := legacyDB\<rparr>"]
  by (simp add: eval_defs ParseUInt64_PackUInt64)

section \<open>Dependencies\<close>

lemma getDependentsDB_db:
  "db (snd (getDependentsDB s D)) = db s"
  by (auto simp: getDependentsDB_def LRU_Get_def Let_def split: option.splits prod.splits)

lemma getDependentsDB_upd_db:
  "getDependentsDB (s\<lparr>db := d\<rparr>) D = (fst (getDependentsDB s D), snd (getDependentsDB s D)\<lparr>db := d\<rparr>)"
  by (auto simp: getDependentsDB_def LRU_Get_def Let_def split: option.splits prod.splits)

lemma getDependentsDB_stable:
  "fst (getDependentsDB (snd (getDependentsDB s D)) D) = fst (getDependentsDB s D)"
  by (cases "Size (dependentsCache s)")
     (auto simp: getDependentsDB_def LRU_Get_def LRU_Put_def Let_def split: option.splits prod.splits)

lemma map_fst_delete: "map fst (AList.delete k al) = filter (\<lambda>k'. k' \<noteq> k) (map fst al)"
  by (induction al) (auto simp: AList.delete_eq)

lemma db_keys_delete:
  "db_Delete h k d = (None, d') \<Longrightarrow> db_keys h d' = filter (\<lambda>k'. k' \<noteq> k) (db_keys h d)"
  by (auto simp: db_Delete_def db_keys_def tick_def DAList.delete.rep_eq map_fst_delete
      split: list.splits if_splits)

lemma db_keys_tick: "db_keys h (snd (tick d)) = db_keys h d"
  by (simp add: db_keys_def tick_def split: list.splits)

lemma distinct_db_keys: "distinct (db_keys h d)"
  by (simp add: db_keys_def)

lemma RemoveDependencies_loop_success:
  "RemoveDependencies_loop h ks acc d = ((xs, None), d') \<Longrightarrow>
   map ID_slice xs = map ID_slice acc @ ks
   \<and> db_keys h d' = filter (\<lambda>k. k \<notin> set ks) (db_keys h d)"
proof (induction ks arbitrary: acc d)
  case Nil
  then show ?case
    by (auto simp: tick_def db_keys_def split: list.splits if_splits)
next
  case (Cons k ks)
  obtain f d1 where t: "tick d = (f, d1)" by (cases "tick d")
  with Cons.prems have nf: "\<not> f" by (auto split: if_splits)
  obtain r d2 where dl: "db_Delete h k d1 = (r, d2)" by (cases "db_Delete h k d1")
  with Cons.prems t nf have r: "r = None" by (auto split: option.splits)
  obtain i where i: "ToID k = Inr i"
    using Cons.prems t nf dl r by (auto split: sum.splits)
  from Cons.prems t nf dl r i have
    "RemoveDependencies_loop h ks (acc @ [i]) d2 = ((xs, None), d')" by simp
  from Cons.IH [OF this] have
    a: "map ID_slice xs = map ID_slice (acc @ [i]) @ ks"
    and b: "db_keys h d' = filter (\<lambda>k. k \<notin> set ks) (db_keys h d2)" by simp_all
  have "db_keys h d2 = filter (\<lambda>k'. k' \<noteq> k) (db_keys h d)"
    using db_keys_delete [of h k d1 d2] dl r db_keys_tick [of h d] t by simp
  with a b ToID_Inr [OF i] show ?case by (auto intro: filter_cong)
qed

lemma AddDependency_bucket:
  assumes "fst (AddDependency s D X) = None"
  shows "fst (getDependentsDB (snd (AddDependency s D X)) D) = fst (getDependentsDB s D)"
    and "spaces (db (snd (AddDependency s D X))) (fst (getDependentsDB s D))
       = DAList.update (ID_slice X) [] (spaces (db s) (fst (getDependentsDB s D)))"
proof -
  obtain h s1 where g: "getDependentsDB s D = (h, s1)" by (cases "getDependentsDB s D")
  obtain r d1 where p: "db_Put h (ID_slice X) [] (db s1) = (r, d1)"
    by (cases "db_Put h (ID_slice X) [] (db s1)")
  have a: "AddDependency s D X = (r, s1\<lparr>db := d1\<rparr>)"
    by (simp add: AddDependency_def g p)
  with assms have r: "r = None" by simp
  have dbs: "db s1 = db s" using getDependentsDB_db [of s D] g by simp
  show "fst (getDependentsDB (snd (AddDependency s D X)) D) = fst (getDependentsDB s D)"
    using getDependentsDB_stable [of s D] g by (simp add: a getDependentsDB_upd_db)
  show "spaces (db (snd (AddDependency s D X))) (fst (getDependentsDB s D))
       = DAList.update (ID_slice X) [] (spaces (db s) (fst (getDependentsDB s D)))"
    using p r dbs g by (auto simp: a db_Put_def tick_def split: list.splits if_splits)
qed

lemma AddDependency_repeated:
  "fst (run (replicate n (OpAddDependency D X)) s) = replicate n True \<Longrightarrow>
   fst (getDependentsDB (snd (run (replicate n (OpAddDependency D X)) s)) D) = fst (getDependentsDB s D)
   \<and> spaces (db (snd (run (replicate n (OpAddDependency D X)) s))) (fst (getDependentsDB s D))
       = (if n = 0 then spaces (db s) (fst (getDependentsDB s D))
          else DAList.update (ID_slice X) [] (spaces (db s) (fst (getDependentsDB s D))))"
proof (induction n arbitrary: s)
  case 0
  then show ?case by simp
next
  case (Suc n)
  let ?s1 = "snd (AddDependency s D X)"
  from Suc.prems have ok: "fst (AddDependency s D X) = None"
    and rest: "fst (run (replicate n (OpAddDependency D X)) ?s1) = replicate n True"
    by (auto split: prod.splits)
  have run: "snd (run (replicate (Suc n) (OpAddDependency D X)) s)
      = snd (run (replicate n (OpAddDependency D X)) ?s1)"
    by (auto split: prod.splits)
  from AddDependency_bucket [OF ok] Suc.IH [OF rest] show ?case
    by (simp only: run) (auto split: if_splits)
qed

lemma RemoveDependencies_success:
  assumes "snd (fst (RemoveDependencies s D)) = None"
  shows "map ID_slice (fst (fst (RemoveDependencies s D))) = db_keys (fst (getDependentsDB s D)) (db s)"
    and "db_keys (fst (getDependentsDB s D)) (db (snd (RemoveDependencies s D))) = []"
    and "fst (getDependentsDB (snd (RemoveDependencies s D)) D) = fst (getDependentsDB s D)"
proof -
  obtain h s1 where g: "getDependentsDB s D = (h, s1)" by (cases "getDependentsDB s D")
  have dbs: "db s1 = db s" using getDependentsDB_db [of s D] g by simp
  obtain xs e d1 where l: "RemoveDependencies_loop h (db_keys h (db s)) [] (db s) = ((xs, e), d1)"
    by (cases "RemoveDependencies_loop h (db_keys h (db s)) [] (db s)") auto
  have a: "RemoveDependencies s D = ((xs, e), s1\<lparr>db := d1\<rparr>)"
    by (simp add: RemoveDependencies_def g dbs l)
  with assms have e: "e = None" by simp
  from RemoveDependencies_loop_success [OF l [unfolded e]]
  have "map ID_slice xs = db_keys h (db s)" and "db_keys h d1 = []"
    by (simp_all add: filter_empty_conv)
  then show "map ID_slice (fst (fst (RemoveDependencies s D))) = db_keys (fst (getDependentsDB s D)) (db s)"
    and "db_keys (fst (getDependentsDB s D)) (db (snd (RemoveDependencies s D))) = []"
    by (simp_all add: a g)
  show "fst (getDependentsDB (snd (RemoveDependencies s D)) D) = fst (getDependentsDB s D)"
    using getDependentsDB_stable [of s D] g by (simp add: a getDependentsDB_upd_db)
qed

lemma RemoveDependencies_empty:
  assumes "db_keys (fst (getDependentsDB s D)) (db s) = []"
  shows "fst (RemoveDependencies s D) = ([], if fst (tick (db s)) then Some ErrIO else None)"
proof -
  obtain h s1 where g: "getDependentsDB s D = (h, s1)" by (cases "getDependentsDB s D")
  have dbs: "db s1 = db s" using getDependentsDB_db [of s D] g by simp
  from assms g show ?thesis
    by (auto simp: RemoveDependencies_def dbs split: prod.splits)
qed

lemma count_list_distinct: "distinct xs \<Longrightarrow> x \<in> set xs \<Longrightarrow> count_list xs x = 1"
  by (induction xs) auto

text \<open>
  Claim C5. \<^verbatim>\<open>AddDependency(D, X)\<close> is called once or more, each call without
  error. Whatever the number of calls, the bucket of \<open>D\<close> is the bucket before
  with \<open>X\<close> put into it once. A \<^verbatim>\<open>RemoveDependencies(D)\<close> that then returns no
  error returns \<open>X\<close> exactly once, and the call of \<^verbatim>\<open>RemoveDependencies(D)\<close> after
  it returns an empty collection, with no error unless the store fails the read.
\<close>

theorem dependency_draining:
  assumes "fst (run (replicate (Suc n) (OpAddDependency D X)) s) = replicate (Suc n) True"
    and "s1 = snd (run (replicate (Suc n) (OpAddDependency D X)) s)"
    and "snd (fst (RemoveDependencies s1 D)) = None"
  shows "spaces (db s1) (fst (getDependentsDB s D))
       = DAList.update (ID_slice X) [] (spaces (db s) (fst (getDependentsDB s D)))
     \<and> count_list (fst (fst (RemoveDependencies s1 D))) X = 1
     \<and> fst (RemoveDependencies (snd (RemoveDependencies s1 D)) D)
       = ([], if fst (tick (db (snd (RemoveDependencies s1 D)))) then Some ErrIO else None)"
proof -
  let ?h = "fst (getDependentsDB s D)"
  let ?xs = "fst (fst (RemoveDependencies s1 D))"
  from AddDependency_repeated [OF assms(1)] assms(2)
  have h: "fst (getDependentsDB s1 D) = ?h"
    and b: "spaces (db s1) ?h = DAList.update (ID_slice X) [] (spaces (db s) ?h)"
    by simp_all
  from RemoveDependencies_success [OF assms(3)] h
  have m: "map ID_slice ?xs = db_keys ?h (db s1)"
    and e: "db_keys (fst (getDependentsDB (snd (RemoveDependencies s1 D)) D))
              (db (snd (RemoveDependencies s1 D))) = []"
    by simp_all
  have "ID_slice X \<in> set (db_keys ?h (db s1))"
    using b by (simp add: db_keys_def DAList.update.rep_eq AList.update_conv' flip: dom_map_of_conv_image_fst)
  with m have mem: "X \<in> set ?xs"
    by (metis (no_types, lifting) ID_slice_inject image_iff list.set_map)
  have "distinct (map ID_slice ?xs)"
    using m distinct_db_keys by simp
  then have "distinct ?xs" by (rule distinct_map [THEN iffD1, THEN conjunct1])
  with mem have "count_list ?xs X = 1"
    by (simp add: count_list_distinct)
  with b RemoveDependencies_empty [OF e] show ?thesis by simp
qed

theorem dependency_draining_witness:
  "fst (run (replicate (Suc 1) (OpAddDependency H1 H2)) state0) = replicate (Suc 1) True
   \<and> fst (RemoveDependencies (snd (run (replicate (Suc 1) (OpAddDependency H1 H2)) state0)) H1) = ([H2], None)
   \<and> count_list [H2] H2 = 1
   \<and> fst (RemoveDependencies (snd (RemoveDependencies
             (snd (run (replicate (Suc 1) (OpAddDependency H1 H2)) state0)) H1)) H1) = ([], None)"
  using dependency_draining [of 1 H1 H2 state0 "snd (run (replicate (Suc 1) (OpAddDependency H1 H2)) state0)"]
  by (simp add: eval_defs)

lemma RemoveDependencies_loop_delete_fails:
  "faults d = replicate (2 * n) False @ False # True # fs \<Longrightarrow> n < length ids \<Longrightarrow>
   RemoveDependencies_loop h (map ID_slice ids) acc d = (r, d') \<Longrightarrow>
   r = ([], Some ErrIO) \<and> faults d' = fs
   \<and> db_keys h d' = filter (\<lambda>k. k \<notin> set (map ID_slice (take n ids))) (db_keys h d)"
proof (induction n arbitrary: ids acc d)
  case 0
  then obtain i ids' where ids: "ids = i # ids'" by (cases ids) auto
  with 0 show ?case
    by (auto simp: tick_def db_Delete_def db_keys_def split: list.splits if_splits)
next
  case (Suc n)
  then obtain i ids' where ids: "ids = i # ids'" by (cases ids) auto
  let ?d2 = "d\<lparr>faults := replicate (2 * n) False @ False # True # fs,
      spaces := (spaces d)(h := DAList.delete (ID_slice i) (spaces d h))\<rparr>"
  have del: "db_Delete h (ID_slice i) (d\<lparr>faults := False # replicate (2 * n) False @ False # True # fs\<rparr>)
       = (None, ?d2)"
    by (simp add: db_Delete_def tick_def)
  from Suc.prems ids del have
    rec: "RemoveDependencies_loop h (map ID_slice ids') (acc @ [i]) ?d2 = (r, d')"
    by (simp add: tick_def ToID_ID_slice)
  have "faults ?d2 = replicate (2 * n) False @ False # True # fs" by simp
  from Suc.IH [OF this _ rec] Suc.prems(2) ids
  have a: "r = ([], Some ErrIO)" "faults d' = fs"
    and b: "db_keys h d' = filter (\<lambda>k. k \<notin> set (map ID_slice (take n ids'))) (db_keys h ?d2)"
    by simp_all
  have "db_keys h ?d2 = filter (\<lambda>k'. k' \<noteq> ID_slice i) (db_keys h d)"
    by (simp add: db_keys_def DAList.delete.rep_eq map_fst_delete)
  with a b ids show ?case by (auto intro: filter_cong)
qed

lemma filter_take_distinct:
  "distinct xs \<Longrightarrow> filter (\<lambda>k. k \<notin> set (take n xs)) xs = drop n xs"
proof (induction xs arbitrary: n)
  case Nil
  then show ?case by simp
next
  case (Cons x xs)
  show ?case
  proof (cases n)
    case 0
    then show ?thesis by simp
  next
    case (Suc m)
    have "filter (\<lambda>k. k \<noteq> x \<and> k \<notin> set (take m xs)) xs = filter (\<lambda>k. k \<notin> set (take m xs)) xs"
      using Cons.prems by (auto intro: filter_cong)
    with Cons Suc show ?thesis by simp
  qed
qed

text \<open>
  Claim C6. The bucket of \<open>D\<close> holds the identifiers \<open>ids\<close>. The store serves the
  first \<open>n\<close> rounds of the loop (a read and a delete each) and the read of the next
  round, and fails the delete of that round. Then \<^verbatim>\<open>RemoveDependencies\<close> returns
  the error and no collection, and the first \<open>n\<close> entries are gone from the bucket.
\<close>

theorem RemoveDependencies_partial_failure:
  assumes "faults (db s) = replicate (2 * n) False @ False # True # fs"
    and "db_keys (fst (getDependentsDB s D)) (db s) = map ID_slice ids"
    and "n < length ids"
  shows "fst (RemoveDependencies s D) = ([], Some ErrIO)
     \<and> db_keys (fst (getDependentsDB s D)) (db (snd (RemoveDependencies s D))) = map ID_slice (drop n ids)"
proof -
  obtain h s1 where g: "getDependentsDB s D = (h, s1)" by (cases "getDependentsDB s D")
  have dbs: "db s1 = db s" using getDependentsDB_db [of s D] g by simp
  obtain r d1 where l: "RemoveDependencies_loop h (map ID_slice ids) [] (db s) = (r, d1)"
    by (cases "RemoveDependencies_loop h (map ID_slice ids) [] (db s)")
  have a: "RemoveDependencies s D = (r, s1\<lparr>db := d1\<rparr>)"
    using assms(2) by (simp add: RemoveDependencies_def g dbs l)
  from RemoveDependencies_loop_delete_fails [OF assms(1) assms(3) l]
  have r: "r = ([], Some ErrIO)"
    and k: "db_keys h d1 = filter (\<lambda>k. k \<notin> set (map ID_slice (take n ids))) (db_keys h (db s))"
    by simp_all
  have "distinct (map ID_slice ids)"
    using distinct_db_keys [of h "db s"] assms(2) g by simp
  from filter_take_distinct [OF this, of n] k assms(2) g
  have "db_keys h d1 = map ID_slice (drop n ids)"
    by (simp add: take_map drop_map)
  with r show ?thesis by (simp add: a g)
qed

theorem RemoveDependencies_partial_failure_witness:
  "faults (db failingState) = replicate (2 * 1) False @ False # True # []
   \<and> db_keys (fst (getDependentsDB failingState H1)) (db failingState) = map ID_slice [H2, H1]
   \<and> (1::nat) < length [H2, H1]
   \<and> fst (RemoveDependencies failingState H1) = ([], Some ErrIO)
   \<and> db_keys (fst (getDependentsDB failingState H1)) (db (snd (RemoveDependencies failingState H1)))
     = [ID_slice H1]"
  using RemoveDependencies_partial_failure [of failingState 1 "[]" H1 "[H2, H1]"] H1_neq_H2
  by (simp add: eval_defs ID_slice_inject numeral_2_eq_2)

section \<open>Missing job identifiers\<close>

text \<open>
  Claim C9. On a store that does not fail, starting from an empty Missing Set,
  adding \<open>A\<close> and \<open>B\<close> (visited in either order) and then removing \<open>A\<close> leaves
  \<^verbatim>\<open>MissingJobIDs\<close> returning exactly \<open>B\<close>. Adding an identifier that is present
  and removing one that is absent return no error and leave the set as it was.
\<close>

theorem missing_set_algebra:
  assumes "faults (db s) = []" and "db_keys (missingJobIDs s) (db s) = []"
    and "A \<noteq> B" and "ab = [A, B] \<or> ab = [B, A]"
    and "faults (db t) = []"
  shows "fst (AddMissingJobIDs s ab) = None
     \<and> fst (RemoveMissingJobIDs (snd (AddMissingJobIDs s ab)) [A]) = None
     \<and> fst (MissingJobIDs (snd (RemoveMissingJobIDs (snd (AddMissingJobIDs s ab)) [A]))) = ([B], None)
     \<and> (ID_slice C \<in> set (db_keys (missingJobIDs t) (db t)) \<longrightarrow>
          fst (AddMissingJobIDs t [C]) = None
          \<and> db_keys (missingJobIDs t) (db (snd (AddMissingJobIDs t [C]))) = db_keys (missingJobIDs t) (db t))
     \<and> (ID_slice C \<notin> set (db_keys (missingJobIDs t) (db t)) \<longrightarrow>
          fst (RemoveMissingJobIDs t [C]) = None
          \<and> db_keys (missingJobIDs t) (db (snd (RemoveMissingJobIDs t [C]))) = db_keys (missingJobIDs t) (db t))"
proof -
  have "fst (AddMissingJobIDs s ab) = None
     \<and> fst (RemoveMissingJobIDs (snd (AddMissingJobIDs s ab)) [A]) = None
     \<and> fst (MissingJobIDs (snd (RemoveMissingJobIDs (snd (AddMissingJobIDs s ab)) [A]))) = ([B], None)"
    using assms(1-4)
    by (auto simp: MissingJobIDs_def db_Put_def db_Delete_def tick_def db_keys_def ID_slice_inject
        ToID_ID_slice DAList.update.rep_eq DAList.delete.rep_eq AList.update_keys map_fst_delete)
  moreover have "ID_slice C \<in> set (db_keys (missingJobIDs t) (db t)) \<longrightarrow>
          fst (AddMissingJobIDs t [C]) = None
          \<and> db_keys (missingJobIDs t) (db (snd (AddMissingJobIDs t [C]))) = db_keys (missingJobIDs t) (db t)"
    using assms(5)
    by (auto simp: db_Put_def tick_def db_keys_def DAList.update.rep_eq AList.update_keys)
  moreover have "ID_slice C \<notin> set (db_keys (missingJobIDs t) (db t)) \<longrightarrow>
          fst (RemoveMissingJobIDs t [C]) = None
          \<and> db_keys (missingJobIDs t) (db (snd (RemoveMissingJobIDs t [C]))) = db_keys (missingJobIDs t) (db t)"
    using assms(5)
    by (auto simp: db_Delete_def tick_def db_keys_def DAList.delete.rep_eq map_fst_delete filter_id_conv)
  ultimately show ?thesis by blast
qed

theorem missing_set_algebra_witness:
  "faults (db state0) = [] \<and> db_keys (missingJobIDs state0) (db state0) = [] \<and> H1 \<noteq> H2
   \<and> fst (MissingJobIDs (snd (RemoveMissingJobIDs (snd (AddMissingJobIDs state0 [H1, H2])) [H1]))) = ([H2], None)
   \<and> fst (MissingJobIDs (snd (RemoveMissingJobIDs (snd (AddMissingJobIDs state0 [H2, H1])) [H1]))) = ([H2], None)
   \<and> ID_slice H1 \<in> set (db_keys (missingJobIDs state0) (db (snd (AddMissingJobIDs state0 [H1]))))
   \<and> fst (AddMissingJobIDs (snd (AddMissingJobIDs state0 [H1])) [H1]) = None
   \<and> db_keys [missingJobIDsKey] (db (snd (AddMissingJobIDs (snd (AddMissingJobIDs state0 [H1])) [H1])))
       = [ID_slice H1]
   \<and> ID_slice H2 \<notin> set (db_keys (missingJobIDs state0) (db state0))
   \<and> fst (RemoveMissingJobIDs state0 [H2]) = None"
  using missing_set_algebra [of state0 H1 H2 "[H1, H2]" "snd (AddMissingJobIDs state0 [H1])" H1]
    missing_set_algebra [of state0 H1 H2 "[H2, H1]" state0 H2] H1_neq_H2
  by (simp add: eval_defs ID_slice_inject)

section \<open>Sequences of calls\<close>

lemma AddMissingJobIDs_state: "\<exists>d. snd (AddMissingJobIDs s ids) = s\<lparr>db := d\<rparr>"
proof (induction ids arbitrary: s)
  case Nil
  show ?case by (auto intro: exI [of _ "db s"])
next
  case (Cons i ids)
  obtain r d1 where p: "db_Put (missingJobIDs s) (ID_slice i) [] (db s) = (r, d1)"
    by (cases "db_Put (missingJobIDs s) (ID_slice i) [] (db s)")
  show ?case
  proof (cases r)
    case None
    with p Cons.IH [of "s\<lparr>db := d1\<rparr>"] show ?thesis by auto
  next
    case (Some e)
    with p show ?thesis by auto
  qed
qed

lemma RemoveMissingJobIDs_state: "\<exists>d. snd (RemoveMissingJobIDs s ids) = s\<lparr>db := d\<rparr>"
proof (induction ids arbitrary: s)
  case Nil
  show ?case by (auto intro: exI [of _ "db s"])
next
  case (Cons i ids)
  obtain r d1 where p: "db_Delete (missingJobIDs s) (ID_slice i) (db s) = (r, d1)"
    by (cases "db_Delete (missingJobIDs s) (ID_slice i) (db s)")
  show ?case
  proof (cases r)
    case None
    with p Cons.IH [of "s\<lparr>db := d1\<rparr>"] show ?thesis by auto
  next
    case (Some e)
    with p show ?thesis by auto
  qed
qed

lemma getDependentsDB_frame:
  "numPendingJobs (snd (getDependentsDB s D)) = numPendingJobs s"
  "cachingEnabled (snd (getDependentsDB s D)) = cachingEnabled s"
  "jobsCache (snd (getDependentsDB s D)) = jobsCache s"
  "\<not> cachingEnabled s \<Longrightarrow> dependentsCache (snd (getDependentsDB s D)) = dependentsCache s"
  by (auto simp: getDependentsDB_def LRU_Get_def Let_def split: option.splits prod.splits)

lemma step_numPendingJobs:
  "\<not> isPut x \<Longrightarrow> \<not> isRemove x \<Longrightarrow> numPendingJobs (snd (step x s)) = numPendingJobs s"
proof (cases x)
  case (OpAddMissingJobIDs ids)
  then show ?thesis using AddMissingJobIDs_state [of s ids] by (auto split: prod.splits)
next
  case (OpRemoveMissingJobIDs ids)
  then show ?thesis using RemoveMissingJobIDs_state [of s ids] by (auto split: prod.splits)
next
  case (OpAddDependency D X)
  then show ?thesis using getDependentsDB_frame(1) [of s D]
    by (auto simp: AddDependency_def split: prod.splits)
next
  case (OpRemoveDependencies D)
  then show ?thesis using getDependentsDB_frame(1) [of s D]
    by (auto simp: RemoveDependencies_def split: prod.splits)
next
  case (OpGetJob i)
  then show ?thesis using GetJob_frame(1) [of s i] by (auto split: prod.splits)
qed (auto simp: HasJob_def AddRunnableJob_def HasRunnableJob_def DisableCaching_def MissingJobIDs_def
      split: prod.splits option.splits)



section \<open>The counter law\<close>

lemma PutJob_counter:
  "fst (PutJob s job) = None \<Longrightarrow> numPendingJobs (snd (PutJob s job)) = numPendingJobs s + 1"
  by (auto simp: PutJob_def Let_def split: prod.splits option.splits if_splits)

lemma RemoveRunnableJob_counter:
  assumes "snd (fst (RemoveRunnableJob s)) = None"
  shows "numPendingJobs (snd (RemoveRunnableJob s))
     = (if numPendingJobs s = 0 then 0 else numPendingJobs s - 1)"
proof -
  from assms obtain k d1 d2 i job s3 d4 where
    h: "ldb_HeadKey (runnableJobIDs s) (db s) = (Inr k, d1)"
    and d: "db_Delete (runnableJobIDs s) k d1 = (None, d2)"
    and t: "ToID k = Inr i"
    and g: "GetJob (s\<lparr>db := d2\<rparr>) i = (Inr job, s3)"
    and e: "db_Delete (jobs s3) k (db s3) = (None, d4)"
    and c: "if numPendingJobs s3 = 0 then snd (RemoveRunnableJob s) = s3\<lparr>db := d4\<rparr>
       else \<exists>d5. PutUInt64 (pendingJobs s3) pendingJobsKey (numPendingJobs s3 - 1) d4 = (None, d5)
              \<and> snd (RemoveRunnableJob s) = s3\<lparr>numPendingJobs := numPendingJobs s3 - 1, db := d5\<rparr>"
    by (rule RemoveRunnableJob_cases)
  from GetJob_frameD [OF g] have "numPendingJobs s3 = numPendingJobs s" by simp
  with c show ?thesis by (auto split: if_splits)
qed

lemma RemoveRunnableJob_counter_any:
  "numPendingJobs (snd (RemoveRunnableJob s)) = numPendingJobs s
   \<or> (numPendingJobs s \<noteq> 0 \<and> numPendingJobs (snd (RemoveRunnableJob s)) = numPendingJobs s - 1)"
proof -
  have a: "\<And>d i r s3. GetJob (s\<lparr>db := d\<rparr>) i = (r, s3) \<Longrightarrow> numPendingJobs s3 = numPendingJobs s"
    using GetJob_frameD by fastforce
  show ?thesis
    by (auto simp: RemoveRunnableJob_def Let_def dest!: a split: prod.splits sum.splits option.splits)
qed

lemma RemoveRunnableJob_no_wrap:
  "unat (numPendingJobs (snd (RemoveRunnableJob s))) \<le> unat (numPendingJobs s)"
  using RemoveRunnableJob_counter_any [of s] by (auto simp: unat_minus_one)

lemma counter_law_gen:
  "run ops s = (oks, s') \<Longrightarrow> allSucceed ops oks \<Longrightarrow> covered c ops \<Longrightarrow>
   unat (numPendingJobs s) = c \<Longrightarrow> c + numPuts ops < 2 ^ 64 \<Longrightarrow>
   unat (numPendingJobs s') = c + numPuts ops - numRemoves ops \<and> numRemoves ops \<le> c + numPuts ops"
proof (induction ops arbitrary: s c oks)
  case Nil
  then show ?case by (simp add: numPuts_def numRemoves_def)
next
  case (Cons x xs)
  obtain ok s1 where st: "step x s = (ok, s1)" by (cases "step x s")
  obtain oks' where r: "run xs s1 = (oks', s')" and oks: "oks = ok # oks'"
    using Cons.prems(1) st by (auto split: prod.splits)
  from Cons.prems(2) oks have all: "allSucceed xs oks'" and okx: "isPut x \<or> isRemove x \<longrightarrow> ok"
    by simp_all
  consider (put) "isPut x" | (rem) "\<not> isPut x" "isRemove x" | (other) "\<not> isPut x" "\<not> isRemove x"
    by blast
  then show ?case
  proof cases
    case put
    then obtain job where x: "x = OpPutJob job" by (cases x) auto
    from st okx put x have "fst (PutJob s job) = None" and s1: "s1 = snd (PutJob s job)"
      by (auto split: prod.splits)
    from PutJob_counter [OF this(1)] s1 have n: "numPendingJobs s1 = numPendingJobs s + 1" by simp
    from Cons.prems(5) put have b: "Suc c + numPuts xs < 2 ^ 64" "c + 1 < 2 ^ 64"
      by (simp_all add: numPuts_def)
    have u: "unat (numPendingJobs s1) = Suc c"
      using n Cons.prems(4) b(2) by (simp add: unat_word_ariths)
    from Cons.prems(3) put have cv: "covered (Suc c) xs" by simp
    from Cons.IH [OF r all cv u b(1)] put x show ?thesis
      by (simp add: numPuts_def numRemoves_def)
  next
    case rem
    then have x: "x = OpRemoveRunnableJob" by (cases x) auto
    from st okx rem x have ok': "snd (fst (RemoveRunnableJob s)) = None"
      and s1: "s1 = snd (RemoveRunnableJob s)"
      by (auto split: prod.splits)
    from Cons.prems(3) rem have c0: "0 < c" and cv: "covered (c - 1) xs" by simp_all
    from c0 Cons.prems(4) have nz: "numPendingJobs s \<noteq> 0" by auto
    from RemoveRunnableJob_counter [OF ok'] s1 nz
    have n: "numPendingJobs s1 = numPendingJobs s - 1" by simp
    have u: "unat (numPendingJobs s1) = c - 1"
      using n nz Cons.prems(4) by (simp add: unat_minus_one)
    from Cons.prems(5) rem have b: "c - 1 + numPuts xs < 2 ^ 64"
      by (simp add: numPuts_def)
    from Cons.IH [OF r all cv u b] rem c0 show ?thesis
      by (auto simp: numPuts_def numRemoves_def)
  next
    case other
    from step_numPendingJobs [OF other, of s] st have n: "numPendingJobs s1 = numPendingJobs s" by simp
    from Cons.prems(3) other have cv: "covered c xs" by simp
    from Cons.prems(5) other have b: "c + numPuts xs < 2 ^ 64" by (simp add: numPuts_def)
    from Cons.IH [OF r all cv _ b] n Cons.prems(4) other show ?thesis
      by (simp add: numPuts_def numRemoves_def)
  qed
qed

lemma GetJob_faults:
  "GetJob s i = (r, s3) \<Longrightarrow> faults (db s) = [] \<Longrightarrow> faults (db s3) = []"
  by (auto simp: GetJob_def LRU_Get_def db_Get_def tick_def
      split: list.splits option.splits sum.splits prod.splits if_splits)

lemma RemoveRunnableJob_clamp_no_error:
  assumes "numPendingJobs s = 0" and "faults (db s) = []" and "fst (fst (RemoveRunnableJob s)) \<noteq> None"
  shows "snd (fst (RemoveRunnableJob s)) = None"
proof (cases "db_keys (runnableJobIDs s) (db s)")
  case Nil
  with assms show ?thesis
    by (simp add: RemoveRunnableJob_def ldb_HeadKey_def tick_no_faults)
next
  case (Cons k ks)
  let ?d2 = "db s\<lparr>spaces := (spaces (db s))
      (runnableJobIDs s := DAList.delete k (spaces (db s) (runnableJobIDs s)))\<rparr>"
  have hk: "ldb_HeadKey (runnableJobIDs s) (db s) = (Inr k, db s)"
    using Cons assms(2) by (simp add: ldb_HeadKey_def tick_no_faults)
  have dl: "db_Delete (runnableJobIDs s) k (db s) = (None, ?d2)"
    using assms(2) by (simp add: db_Delete_def tick_no_faults)
  show ?thesis
  proof (cases "ToID k")
    case (Inl e)
    with hk dl assms(3) show ?thesis by (simp add: RemoveRunnableJob_def)
  next
    case (Inr i)
    obtain r s3 where g: "GetJob (s\<lparr>db := ?d2\<rparr>) i = (r, s3)"
      by (cases "GetJob (s\<lparr>db := ?d2\<rparr>) i")
    from GetJob_faults [OF g] assms(2) have f3: "faults (db s3) = []" by simp
    from GetJob_frameD [OF g] assms(1) have n3: "numPendingJobs s3 = 0" by simp
    show ?thesis
    proof (cases r)
      case (Inl e)
      with hk dl g \<open>ToID k = Inr i\<close> assms(3) show ?thesis by (simp add: RemoveRunnableJob_def)
    next
      case (Inr job)
      obtain d4 where "db_Delete (jobs s3) k (db s3) = (None, d4)"
        using f3 by (simp add: db_Delete_def tick_no_faults)
      with hk dl g \<open>ToID k = Inr i\<close> Inr n3 show ?thesis
        by (simp add: RemoveRunnableJob_def)
    qed
  qed
qed

text \<open>
  Claim C3 fails in two ways. With caching enabled a job that was dequeued stays
  in the cache, so it can be queued and dequeued again; this second
  \<^verbatim>\<open>RemoveRunnableJob\<close> succeeds with the decrement clamped at zero. The sequence
  below has two successful puts and two successful removes, and ends with the
  counter at 1. And a \<^verbatim>\<open>PutJob\<close> whose checkpoint write fails returns an error
  after it has incremented the counter: no successful put, and the counter is 1.
\<close>

theorem pending_counter_counterexample:
  "newState parser1 emptyDB = Inr state0
   \<and> fst (run [OpPutJob job1, OpAddRunnableJob H1, OpRemoveRunnableJob,
               OpAddRunnableJob H1, OpRemoveRunnableJob, OpPutJob job1] state0)
       = [True, True, True, True, True, True]
   \<and> numPuts [OpPutJob job1, OpAddRunnableJob H1, OpRemoveRunnableJob,
               OpAddRunnableJob H1, OpRemoveRunnableJob, OpPutJob job1] = 2
   \<and> numRemoves [OpPutJob job1, OpAddRunnableJob H1, OpRemoveRunnableJob,
               OpAddRunnableJob H1, OpRemoveRunnableJob, OpPutJob job1] = 2
   \<and> numPendingJobs (snd (run [OpPutJob job1, OpAddRunnableJob H1, OpRemoveRunnableJob,
               OpAddRunnableJob H1, OpRemoveRunnableJob, OpPutJob job1] state0)) = 1
   \<and> fst (run [OpPutJob job1] (state0\<lparr>db := emptyDB\<lparr>faults := [False, True]\<rparr>\<rparr>)) = [False]
   \<and> numPendingJobs (snd (run [OpPutJob job1] (state0\<lparr>db := emptyDB\<lparr>faults := [False, True]\<rparr>\<rparr>))) = 1"
  by (simp add: newState_emptyDB numPuts_def numRemoves_def) (simp add: eval_defs)

text \<open>
  Claim C3, amended. Start with the counter at zero and perform any sequence of
  calls in which every \<^verbatim>\<open>PutJob\<close> and every \<^verbatim>\<open>RemoveRunnableJob\<close> returns no error
  and no \<^verbatim>\<open>RemoveRunnableJob\<close> comes when the puts before it are used up, with
  fewer than \<open>2 ^ 64\<close> puts. Then the counter is the number of puts minus the number
  of removes. In any state \<^verbatim>\<open>RemoveRunnableJob\<close> never makes the counter larger,
  so it never wraps below zero; at zero it leaves the counter at zero, and on a
  store that does not fail it returns no error once it has fetched the job.
\<close>

theorem pending_counter_law:
  assumes "numPendingJobs s = 0" and "run ops s = (oks, s')" and "allSucceed ops oks"
    and "covered 0 ops" and "numPuts ops < 2 ^ 64"
  shows "unat (numPendingJobs s') = numPuts ops - numRemoves ops
     \<and> unat (numPendingJobs (snd (RemoveRunnableJob t))) \<le> unat (numPendingJobs t)
     \<and> (numPendingJobs t = 0 \<longrightarrow> numPendingJobs (snd (RemoveRunnableJob t)) = 0)
     \<and> (numPendingJobs t = 0 \<and> faults (db t) = [] \<and> fst (fst (RemoveRunnableJob t)) \<noteq> None \<longrightarrow>
          snd (fst (RemoveRunnableJob t)) = None)"
  using counter_law_gen [OF assms(2) assms(3) assms(4)] assms(1) assms(5)
    RemoveRunnableJob_no_wrap [of t] RemoveRunnableJob_clamp_no_error [of t]
    RemoveRunnableJob_counter_any [of t]
  by auto

theorem pending_counter_law_witness:
  "numPendingJobs state0 = 0
   \<and> allSucceed [OpPutJob job1, OpAddRunnableJob H1, OpRemoveRunnableJob]
        (fst (run [OpPutJob job1, OpAddRunnableJob H1, OpRemoveRunnableJob] state0))
   \<and> covered 0 [OpPutJob job1, OpAddRunnableJob H1, OpRemoveRunnableJob]
   \<and> numPuts [OpPutJob job1, OpAddRunnableJob H1, OpRemoveRunnableJob] < 2 ^ 64
   \<and> unat (numPendingJobs (snd (run [OpPutJob job1, OpAddRunnableJob H1, OpRemoveRunnableJob] state0)))
       = 1 - 1
   \<and> numPendingJobs (state0\<lparr>db := legacyDB\<rparr>) = 0 \<and> faults (db (state0\<lparr>db := legacyDB\<rparr>)) = []
   \<and> fst (RemoveRunnableJob (state0\<lparr>db := legacyDB\<rparr>)) = (Some job1, None)
   \<and> numPendingJobs (snd (RemoveRunnableJob (state0\<lparr>db := legacyDB\<rparr>))) = 0"
  using pending_counter_law [of state0 "[OpPutJob job1, OpAddRunnableJob H1, OpRemoveRunnableJob]"
      "fst (run [OpPutJob job1, OpAddRunnableJob H1, OpRemoveRunnableJob] state0)"
      "snd (run [OpPutJob job1, OpAddRunnableJob H1, OpRemoveRunnableJob] state0)"
      "state0\<lparr>db := legacyDB\<rparr>"]
  by (simp add: numPuts_def numRemoves_def) (simp add: eval_defs)

section \<open>Caching\<close>

subsection \<open>Views of the cache and of the store\<close>

























lemma list_all_take: "list_all P xs \<Longrightarrow> list_all P (take n xs)"
  by (auto simp: list_all_iff dest: in_set_takeD)




subsection \<open>Invariants of the states the code builds\<close>




































subsection \<open>Transparency\<close>




section \<open>Presence of a job\<close>

text \<open>
  The parts of claim C1 that the code keeps: after a \<^verbatim>\<open>PutJob\<close> without error
  \<^verbatim>\<open>HasJob\<close> answers true, with or without caching, and with caching disabled
  \<^verbatim>\<open>HasJob\<close> answers false for the identifier that \<^verbatim>\<open>RemoveRunnableJob\<close> dequeued;
  both on a store that does not fail the read.
\<close>

lemma PutJob_HasJob:
  assumes "fst (PutJob s job) = None" and "\<not> fst (tick (db (snd (PutJob s job))))"
  shows "fst (HasJob (snd (PutJob s job)) (ID job)) = Inr True"
  using assms
  by (auto simp: PutJob_def HasJob_def LRU_Get_def db_Has_def db_Put_def PutUInt64_def tick_def Let_def
      DAList.lookup_update
      split: list.splits option.splits prod.splits if_splits)

lemma db_Delete_lookup:
  "db_Delete h k d = (None, d') \<Longrightarrow> DAList.lookup (spaces d' h) k = None"
  by (auto simp: db_Delete_def tick_def split: list.splits if_splits)

lemma PutUInt64_other:
  "PutUInt64 h k w d = (r, d') \<Longrightarrow> k \<noteq> k' \<Longrightarrow>
   DAList.lookup (spaces d' h') k' = DAList.lookup (spaces d h') k'"
  by (auto simp: PutUInt64_def db_Put_def tick_def split: list.splits if_splits)

lemma RemoveRunnableJob_HasJob_uncached:
  assumes "\<not> cachingEnabled s" and "snd (fst (RemoveRunnableJob s)) = None"
    and "db_keys (runnableJobIDs s) (db s) = ID_slice i # ks"
    and "\<not> fst (tick (db (snd (RemoveRunnableJob s))))"
  shows "fst (HasJob (snd (RemoveRunnableJob s)) i) = Inr False"
proof -
  from assms(2) obtain k d1 d2 i' job s3 d4 where
    h: "ldb_HeadKey (runnableJobIDs s) (db s) = (Inr k, d1)"
    and g: "GetJob (s\<lparr>db := d2\<rparr>) i' = (Inr job, s3)"
    and e: "db_Delete (jobs s3) k (db s3) = (None, d4)"
    and c: "if numPendingJobs s3 = 0 then snd (RemoveRunnableJob s) = s3\<lparr>db := d4\<rparr>
       else \<exists>d5. PutUInt64 (pendingJobs s3) pendingJobsKey (numPendingJobs s3 - 1) d4 = (None, d5)
              \<and> snd (RemoveRunnableJob s) = s3\<lparr>numPendingJobs := numPendingJobs s3 - 1, db := d5\<rparr>"
    by (rule RemoveRunnableJob_cases)
  from h assms(3) have k: "k = ID_slice i"
    by (auto simp: ldb_HeadKey_def db_keys_def tick_def split: list.splits if_splits)
  from GetJob_frameD [OF g] assms(1) have f: "jobs s3 = jobs s" "\<not> cachingEnabled s3" by simp_all
  let ?s' = "snd (RemoveRunnableJob s)"
  have "jobs ?s' = jobs s \<and> \<not> cachingEnabled ?s'
      \<and> DAList.lookup (spaces (db ?s') (jobs s)) (ID_slice i) = None"
  proof (cases "numPendingJobs s3 = 0")
    case True
    with c f db_Delete_lookup [OF e] k show ?thesis by simp
  next
    case False
    with c obtain d5 where p: "PutUInt64 (pendingJobs s3) pendingJobsKey (numPendingJobs s3 - 1) d4 = (None, d5)"
      and s': "?s' = s3\<lparr>numPendingJobs := numPendingJobs s3 - 1, db := d5\<rparr>" by auto
    from PutUInt64_other [OF p ID_slice_neq_pendingJobsKey(2), of "jobs s" i] db_Delete_lookup [OF e] k f s'
    show ?thesis by simp
  qed
  with assms(4) show ?thesis
    by (auto simp: HasJob_def db_Has_def tick_def split: list.splits prod.splits)
qed

end
